theory Spec2Isabelle
  imports Main
begin

section \<open>TrendPulse: cache, refresh, retry and parsing logic\<close>

text \<open>
  A shallow embedding of the trend cache manager of the \<^verbatim>\<open>App\<close> component and of the
  fetch client in \<^verbatim>\<open>services/geminiService.ts\<close>.

  Conventions of the embedding:
  \<^item> a JavaScript string is a \<^typ>\<open>string\<close>, one \<^typ>\<open>char\<close> per code unit; the code
    units are those below 256, so the white space of \<^verbatim>\<open>\s\<close> and \<^verbatim>\<open>trim\<close> and the line
    terminators excluded by \<^verbatim>\<open>.\<close> are the ones in that range;
  \<^item> a time stamp (\<^verbatim>\<open>Date.now()\<close>, milliseconds) is an \<^typ>\<open>int\<close>;
  \<^item> a thrown exception or a rejected promise is the \<open>Inl\<close> side of a sum;
  \<^item> React state cells are fields of a record that each function returns updated;
  \<^item> the item of \<^verbatim>\<open>localStorage\<close> that holds the cache is a field of that record too; a
    call of \<^verbatim>\<open>setItem\<close> either stores the item or throws and leaves the item as it was.
\<close>

subsection \<open>types.ts\<close>

record Topic =
  id_t :: string
  title :: string
  category :: string
  description :: string
  imageUrl :: "string option"

subsection \<open>Saved topics\<close>

text \<open>
  \<^verbatim>\<open>toggleSaveTopic\<close>: the updater passed to \<^verbatim>\<open>setSavedTopics\<close>, as a function from
  the previous list to the next one.
\<close>

definition toggleSaveTopic :: "Topic \<Rightarrow> Topic list \<Rightarrow> Topic list" where
  "toggleSaveTopic topic prev =
     (let exists = list_ex (\<lambda>t. title t = title topic) prev
      in if exists then filter (\<lambda>t. title t \<noteq> title topic) prev
         else topic # prev)"

definition isTopicSaved :: "Topic list \<Rightarrow> Topic \<Rightarrow> bool" where
  "isTopicSaved savedTopics topic = list_ex (\<lambda>t. title t = title topic) savedTopics"

subsection \<open>geminiService.ts: the external call with retry\<close>

text \<open>
  One call of \<^verbatim>\<open>ai.models.generateContent\<close> resolves with a response, of which the code
  reads \<^verbatim>\<open>text\<close> (a string or \<^verbatim>\<open>undefined\<close>), or rejects with an error, of which the
  code reads \<^verbatim>\<open>status\<close> and \<^verbatim>\<open>code\<close> (\<open>None\<close>: the property is not a number).
  The service is a black box: \<open>ai k\<close> is what the \<open>k\<close>-th call of one request does.
\<close>

record api_error =
  status :: "int option"
  code :: "int option"

record api_response =
  text_r :: "string option"

type_synonym service = "nat \<Rightarrow> api_error + api_response"

datatype fetch_event = ApiCall | Delay int

text \<open>
  \<^verbatim>\<open>generateContentWithRetry(model, params, retries = 3)\<close>. The model name and the
  parameters are the same in every recursive call and are left out; \<open>k\<close> counts the
  calls made so far. The result pairs what happened (calls and \<^verbatim>\<open>delay(waitTime)\<close>
  pauses, in order) with the settled promise.
\<close>

fun generateContentWithRetry ::
  "service \<Rightarrow> nat \<Rightarrow> nat \<Rightarrow> fetch_event list \<times> (api_error + api_response)" where
  "generateContentWithRetry ai k retries =
     (case ai k of
        Inr response \<Rightarrow> ([ApiCall], Inr response)
      | Inl error \<Rightarrow>
          if retries > 0 \<and>
             (status error = Some 429 \<or> code error = Some 429 \<or> status error = Some 503)
          then
            let waitTime = 2000 * (4 - int retries);
                (tr, r) = generateContentWithRetry ai (Suc k) (retries - 1)
            in (ApiCall # Delay waitTime # tr, r)
          else ([ApiCall], Inl error))"

declare generateContentWithRetry.simps [simp del]

subsection \<open>geminiService.ts: parsing the response text\<close>

definition isLineTerminator :: "char \<Rightarrow> bool" where
  "isLineTerminator c \<longleftrightarrow> c = CHR 0x0A \<or> c = CHR 0x0D"

text \<open>The characters of \<^verbatim>\<open>\s\<close>, which are also the ones \<^verbatim>\<open>trim\<close> strips.\<close>

definition isWhiteSpace :: "char \<Rightarrow> bool" where
  "isWhiteSpace c \<longleftrightarrow>
     c = CHR 0x09 \<or> c = CHR 0x0B \<or> c = CHR 0x0C \<or> c = CHR 0x20 \<or> c = CHR 0xA0
     \<or> isLineTerminator c"

definition trim :: "string \<Rightarrow> string" where
  "trim s = rev (dropWhile isWhiteSpace (rev (dropWhile isWhiteSpace s)))"

text \<open>\<^verbatim>\<open>text.split('\n')\<close>: the empty string splits into one empty line.\<close>

fun split_nl :: "string \<Rightarrow> string list" where
  "split_nl [] = [[]]"
| "split_nl (c # cs) =
     (if c = CHR 0x0A then [] # split_nl cs
      else (case split_nl cs of l # ls \<Rightarrow> (c # l) # ls | [] \<Rightarrow> [[c]]))"

text \<open>
  The regular expression \<^verbatim>\<open>/TOPIC_START\|(.*?)\|(.*?)\|(.*?)\|TOPIC_END/\<close> (no flags), as
  the backtracking matcher runs it. A literal must be a prefix of the input; a lazy group
  \<^verbatim>\<open>(.*?)\<close> first tries the rest of the pattern with nothing captured and, when that
  fails, captures one more character that is not a line terminator; the whole pattern is
  tried at each start position from the left. The rest of the pattern is the
  continuation \<open>k\<close>.
\<close>

definition lit :: "string \<Rightarrow> (string \<Rightarrow> 'a option) \<Rightarrow> string \<Rightarrow> 'a option" where
  "lit p k s = (if take (length p) s = p then k (drop (length p) s) else None)"

fun lazy_group :: "(string \<Rightarrow> 'a option) \<Rightarrow> string \<Rightarrow> (string \<times> 'a) option" where
  "lazy_group k [] = (case k [] of Some r \<Rightarrow> Some ([], r) | None \<Rightarrow> None)"
| "lazy_group k (c # cs) =
     (case k (c # cs) of
        Some r \<Rightarrow> Some ([], r)
      | None \<Rightarrow>
          if isLineTerminator c then None
          else (case lazy_group k cs of Some (g, r) \<Rightarrow> Some (c # g, r) | None \<Rightarrow> None))"

definition regex_at :: "string \<Rightarrow> (string \<times> string \<times> string) option" where
  "regex_at s =
     (case lit ''TOPIC_START|''
             (lazy_group (lit ''|''
               (lazy_group (lit ''|''
                 (lazy_group (lit ''|TOPIC_END'' (\<lambda>rest. Some ())))))))
             s of
        Some (m1, m2, m3, u) \<Rightarrow> Some (m1, m2, m3)
      | None \<Rightarrow> None)"

text \<open>\<^verbatim>\<open>line.match(regex)\<close>: the three captured groups, or \<open>None\<close> for \<^verbatim>\<open>null\<close>.\<close>

fun regex_match :: "string \<Rightarrow> (string \<times> string \<times> string) option" where
  "regex_match [] = regex_at []"
| "regex_match (c # cs) =
     (case regex_at (c # cs) of Some m \<Rightarrow> Some m | None \<Rightarrow> regex_match cs)"

declare regex_match.simps [simp del]

text \<open>Decimal rendering of a number inside a template literal.\<close>

definition digit_char :: "nat \<Rightarrow> char" where
  "digit_char d = ''0123456789'' ! d"

fun show_nat :: "nat \<Rightarrow> string" where
  "show_nat n =
     (if n < 10 then [digit_char n]
      else show_nat (n div 10) @ [digit_char (n mod 10)])"

declare show_nat.simps [simp del]

definition show_int :: "int \<Rightarrow> string" where
  "show_int i = (if i < 0 then CHR ''-'' # show_nat (nat (- i)) else show_nat (nat i))"

text \<open>
  The \<^verbatim>\<open>lines.forEach((line, index) => ...)\<close> loop, pushing one topic per matching
  line; \<open>now index\<close> is \<^verbatim>\<open>Date.now()\<close> as read in the callback of line \<open>index\<close>.
\<close>

fun parse_lines :: "string \<Rightarrow> (nat \<Rightarrow> int) \<Rightarrow> nat \<Rightarrow> string list \<Rightarrow> Topic list" where
  "parse_lines categoryPrefix now index [] = []"
| "parse_lines categoryPrefix now index (line # lines) =
     (case regex_match line of
        Some (m1, m2, m3) \<Rightarrow>
          [\<lparr>id_t = categoryPrefix @ ''-'' @ show_nat index @ ''-'' @ show_int (now index),
            title = trim m1,
            category = trim m2,
            description = trim m3,
            imageUrl = Some (''https://picsum.photos/seed/''
                             @ filter (\<lambda>c. \<not> isWhiteSpace c) m1 @ categoryPrefix
                             @ ''/600/400'')\<rparr>]
      | None \<Rightarrow> [])
     @ parse_lines categoryPrefix now (Suc index) lines"

subsection \<open>geminiService.ts: one category\<close>

text \<open>
  The \<^verbatim>\<open>try\<close> block of \<^verbatim>\<open>fetchTopicsByCategory\<close>. The prompt only reaches the
  service, whose answers are \<open>ai\<close>.
\<close>

definition fetchTopicsByCategory_try ::
  "service \<Rightarrow> (nat \<Rightarrow> int) \<Rightarrow> string \<Rightarrow> Topic list \<Rightarrow> api_error + Topic list" where
  "fetchTopicsByCategory_try ai now categoryPrefix fallbackData =
     (case snd (generateContentWithRetry ai 0 3) of
        Inl error \<Rightarrow> Inl error
      | Inr response \<Rightarrow>
          let text = (case text_r response of None \<Rightarrow> [] | Some t \<Rightarrow> t);
              topics = parse_lines categoryPrefix now 0 (split_nl text)
          in if length topics = 0 then Inr fallbackData
             else Inr (take 10 topics))"

text \<open>
  \<^verbatim>\<open>fetchTopicsByCategory\<close>: the \<^verbatim>\<open>catch\<close> block logs the error and returns the fallback
  data. The first component is what the retry wrapper did.
\<close>

definition fetchTopicsByCategory ::
  "service \<Rightarrow> (nat \<Rightarrow> int) \<Rightarrow> string \<Rightarrow> Topic list
     \<Rightarrow> fetch_event list \<times> (api_error + Topic list)" where
  "fetchTopicsByCategory ai now categoryPrefix fallbackData =
     (fst (generateContentWithRetry ai 0 3),
      case fetchTopicsByCategory_try ai now categoryPrefix fallbackData of
        Inr topics \<Rightarrow> Inr topics
      | Inl error \<Rightarrow> Inr fallbackData)"

subsection \<open>geminiService.ts: the nine categories and their fallback data\<close>

definition fetchNewsAndPolitics_fallback :: "Topic list" where
  "fetchNewsAndPolitics_fallback =
    [\<lparr>id_t = ''f-news-1'', title = ''Global Summit 2024'', category = ''Politics'',
       description = ''World leaders gather to discuss climate and trade.'',
       imageUrl = Some ''https://picsum.photos/seed/Summit/600/400''\<rparr>,
     \<lparr>id_t = ''f-news-2'', title = ''Economic Shift'', category = ''Economy'',
       description = ''New inflation data impacts global markets.'',
       imageUrl = Some ''https://picsum.photos/seed/Economy/600/400''\<rparr>,
     \<lparr>id_t = ''f-news-3'', title = ''Tech Regulation'', category = ''Policy'',
       description = ''Congress discusses new bills for AI safety.'',
       imageUrl = Some ''https://picsum.photos/seed/Congress/600/400''\<rparr>,
     \<lparr>id_t = ''f-news-4'', title = ''Space Mission'', category = ''Science'',
       description = ''Historic landing on the lunar south pole.'',
       imageUrl = Some ''https://picsum.photos/seed/Moon/600/400''\<rparr>,
     \<lparr>id_t = ''f-news-5'', title = ''Election Update'', category = ''Politics'',
       description = ''Latest polling numbers show a tight race.'',
       imageUrl = Some ''https://picsum.photos/seed/Vote/600/400''\<rparr>,
     \<lparr>id_t = ''f-news-6'', title = ''Urban Renewal'', category = ''Infrastructure'',
       description = ''Major cities announce green energy plans.'',
       imageUrl = Some ''https://picsum.photos/seed/City/600/400''\<rparr>]"

definition fetchMusicTrends_fallback :: "Topic list" where
  "fetchMusicTrends_fallback =
    [\<lparr>id_t = ''f-music-1'', title = ''Pop Star Return'', category = ''Mainstream'',
       description = ''Legendary artist announces surprise tour.'',
       imageUrl = Some ''https://picsum.photos/seed/Microphone/600/400''\<rparr>,
     \<lparr>id_t = ''f-music-2'', title = ''Indie Breakout'', category = ''Alternative'',
       description = ''Underground band hits mainstream success.'',
       imageUrl = Some ''https://picsum.photos/seed/Guitar/600/400''\<rparr>,
     \<lparr>id_t = ''f-music-3'', title = ''Award Snubs'', category = ''Awards'',
       description = ''Fans outrage over recent nominations.'',
       imageUrl = Some ''https://picsum.photos/seed/Trophy/600/400''\<rparr>,
     \<lparr>id_t = ''f-music-4'', title = ''Festival Lineup'', category = ''Live'',
       description = ''Summer festival headliners revealed.'',
       imageUrl = Some ''https://picsum.photos/seed/Festival/600/400''\<rparr>,
     \<lparr>id_t = ''f-music-5'', title = ''Country Crossover'', category = ''Country'',
       description = ''Country hit goes viral globally.'',
       imageUrl = Some ''https://picsum.photos/seed/Banjo/600/400''\<rparr>,
     \<lparr>id_t = ''f-music-6'', title = ''Supergroup Formed'', category = ''Rock'',
       description = ''Famous rockers unite for new project.'',
       imageUrl = Some ''https://picsum.photos/seed/Drum/600/400''\<rparr>]"

definition fetchBillboardTrends_fallback :: "Topic list" where
  "fetchBillboardTrends_fallback =
    [\<lparr>id_t = ''f-bb-1'', title = ''New #1 Hit'', category = ''Hot 100'',
       description = ''The song that just dethroned the reigning champion.'',
       imageUrl = Some ''https://picsum.photos/seed/Chart1/600/400''\<rparr>,
     \<lparr>id_t = ''f-bb-2'', title = ''Record Breaker'', category = ''History'',
       description = ''Artist breaks record for most weeks at top.'',
       imageUrl = Some ''https://picsum.photos/seed/Record/600/400''\<rparr>,
     \<lparr>id_t = ''f-bb-3'', title = ''Album Debut'', category = ''Billboard 200'',
       description = ''Massive first-week sales numbers released.'',
       imageUrl = Some ''https://picsum.photos/seed/Album/600/400''\<rparr>,
     \<lparr>id_t = ''f-bb-4'', title = ''Sleeper Hit'', category = ''Rising'',
       description = ''Song from last year suddenly enters Top 10.'',
       imageUrl = Some ''https://picsum.photos/seed/ArrowUp/600/400''\<rparr>,
     \<lparr>id_t = ''f-bb-5'', title = ''Global 200'', category = ''World'',
       description = ''K-Pop group dominates global streaming charts.'',
       imageUrl = Some ''https://picsum.photos/seed/GlobeMusic/600/400''\<rparr>,
     \<lparr>id_t = ''f-bb-6'', title = ''Longest Running'', category = ''Legacy'',
       description = ''Track spends 52 weeks on the chart.'',
       imageUrl = Some ''https://picsum.photos/seed/Calendar/600/400''\<rparr>]"

definition fetchHipHopTrends_fallback :: "Topic list" where
  "fetchHipHopTrends_fallback =
    [\<lparr>id_t = ''f-hh-1'', title = ''Viral Rap Beef'', category = ''Hip-Hop'',
       description = ''Diss tracks exchange heats up between titans.'',
       imageUrl = Some ''https://picsum.photos/seed/Rap/600/400''\<rparr>,
     \<lparr>id_t = ''f-hh-2'', title = ''New Album Drop'', category = ''Release'',
       description = ''Highly anticipated album dominates streaming.'',
       imageUrl = Some ''https://picsum.photos/seed/Vinyl/600/400''\<rparr>,
     \<lparr>id_t = ''f-hh-3'', title = ''Producer Tag'', category = ''Production'',
       description = ''The producer tag everyone is hearing right now.'',
       imageUrl = Some ''https://picsum.photos/seed/Beat/600/400''\<rparr>,
     \<lparr>id_t = ''f-hh-4'', title = ''Fashion Week'', category = ''Culture'',
       description = ''Rappers taking over the runway in Paris.'',
       imageUrl = Some ''https://picsum.photos/seed/Fashion/600/400''\<rparr>,
     \<lparr>id_t = ''f-hh-5'', title = ''Underground King'', category = ''Rising'',
       description = ''SoundCloud rapper breaks into mainstream.'',
       imageUrl = Some ''https://picsum.photos/seed/Mic/600/400''\<rparr>,
     \<lparr>id_t = ''f-hh-6'', title = ''Classic Sample'', category = ''History'',
       description = ''90s hit sampled in top charting song.'',
       imageUrl = Some ''https://picsum.photos/seed/Boombox/600/400''\<rparr>]"

definition fetchTechTrends_fallback :: "Topic list" where
  "fetchTechTrends_fallback =
    [\<lparr>id_t = ''f-tech-1'', title = ''Next-Gen Models'', category = ''AI'',
       description = ''The latest LLM benchmarks shatter expectations.'',
       imageUrl = Some ''https://picsum.photos/seed/Robot/600/400''\<rparr>,
     \<lparr>id_t = ''f-tech-2'', title = ''Dev Tools 2.0'', category = ''Software'',
       description = ''How coding assistants are changing development.'',
       imageUrl = Some ''https://picsum.photos/seed/Code/600/400''\<rparr>,
     \<lparr>id_t = ''f-tech-3'', title = ''Quantum Leap'', category = ''Innovation'',
       description = ''New breakthrough in quantum computing stability.'',
       imageUrl = Some ''https://picsum.photos/seed/Quantum/600/400''\<rparr>,
     \<lparr>id_t = ''f-tech-4'', title = ''VR Headset War'', category = ''Hardware'',
       description = ''Competitors launch affordable mixed reality gear.'',
       imageUrl = Some ''https://picsum.photos/seed/VR/600/400''\<rparr>,
     \<lparr>id_t = ''f-tech-5'', title = ''Open Source Wins'', category = ''Community'',
       description = ''Major corporation open sources key library.'',
       imageUrl = Some ''https://picsum.photos/seed/Linux/600/400''\<rparr>,
     \<lparr>id_t = ''f-tech-6'', title = ''Cybersecurity Alert'', category = ''Security'',
       description = ''New zero-day vulnerability affects millions.'',
       imageUrl = Some ''https://picsum.photos/seed/Lock/600/400''\<rparr>]"

definition fetchMemeTrends_fallback :: "Topic list" where
  "fetchMemeTrends_fallback =
    [\<lparr>id_t = ''f-meme-1'', title = ''Skibidi Variants'', category = ''Viral'',
       description = ''The endless evolution of the toilet head phenomenon.'',
       imageUrl = Some ''https://picsum.photos/seed/Toilet/600/400''\<rparr>,
     \<lparr>id_t = ''f-meme-2'', title = ''Fanum Tax'', category = ''Slang'',
       description = ''The internet culture of food sharing and theft.'',
       imageUrl = Some ''https://picsum.photos/seed/Food/600/400''\<rparr>,
     \<lparr>id_t = ''f-meme-3'', title = ''Corecore'', category = ''Aesthetic'',
       description = ''Nihilistic video collages taking over TikTok.'',
       imageUrl = Some ''https://picsum.photos/seed/Mood/600/400''\<rparr>,
     \<lparr>id_t = ''f-meme-4'', title = ''NPC Streaming'', category = ''Live'',
       description = ''Creators acting like video game characters.'',
       imageUrl = Some ''https://picsum.photos/seed/NPC/600/400''\<rparr>,
     \<lparr>id_t = ''f-meme-5'', title = ''Grimace Shake'', category = ''Throwback'',
       description = ''The purple drink horror trend returns.'',
       imageUrl = Some ''https://picsum.photos/seed/Shake/600/400''\<rparr>,
     \<lparr>id_t = ''f-meme-6'', title = ''Roman Empire'', category = ''Discussion'',
       description = ''How often do men think about the Roman Empire?'',
       imageUrl = Some ''https://picsum.photos/seed/Roman/600/400''\<rparr>]"

definition fetchGamingTrends_fallback :: "Topic list" where
  "fetchGamingTrends_fallback =
    [\<lparr>id_t = ''f-game-1'', title = ''GTA VI Leaks'', category = ''Rumor'',
       description = ''Analyzing the latest frame-by-frame details.'',
       imageUrl = Some ''https://picsum.photos/seed/GTA/600/400''\<rparr>,
     \<lparr>id_t = ''f-game-2'', title = ''Esports Finals'', category = ''Esports'',
       description = ''Record-breaking viewership at the latest major.'',
       imageUrl = Some ''https://picsum.photos/seed/Esports/600/400''\<rparr>,
     \<lparr>id_t = ''f-game-3'', title = ''Indie Gems'', category = ''Release'',
       description = ''The steam hit everyone is playing this week.'',
       imageUrl = Some ''https://picsum.photos/seed/Indie/600/400''\<rparr>,
     \<lparr>id_t = ''f-game-4'', title = ''Console Refresh'', category = ''Hardware'',
       description = (''Rumors of a '' @ [CHR 0x22] @ ''Pro'' @ [CHR 0x22] @ '' console upgrade swirl.''),
       imageUrl = Some ''https://picsum.photos/seed/Console/600/400''\<rparr>,
     \<lparr>id_t = ''f-game-5'', title = ''Speedrun Record'', category = ''Community'',
       description = ''Classic game beaten in under 5 minutes.'',
       imageUrl = Some ''https://picsum.photos/seed/Timer/600/400''\<rparr>,
     \<lparr>id_t = ''f-game-6'', title = ''RPG Expansion'', category = ''DLC'',
       description = ''Massive update drops for popular RPG.'',
       imageUrl = Some ''https://picsum.photos/seed/Dragon/600/400''\<rparr>]"

definition fetchLandscapeTrends_fallback :: "Topic list" where
  "fetchLandscapeTrends_fallback =
    [\<lparr>id_t = ''f-land-1'', title = ''Northern Lights'', category = ''Phenomenon'',
       description = ''Solar storms create spectacular views globally.'',
       imageUrl = Some ''https://picsum.photos/seed/Aurora/600/400''\<rparr>,
     \<lparr>id_t = ''f-land-2'', title = ''Hidden Beaches'', category = ''Travel'',
       description = ''The secret summer destinations trending now.'',
       imageUrl = Some ''https://picsum.photos/seed/Beach/600/400''\<rparr>,
     \<lparr>id_t = ''f-land-3'', title = ''Volcanic Eruption'', category = ''News'',
       description = ''Live streams of lava flows captivate millions.'',
       imageUrl = Some ''https://picsum.photos/seed/Volcano/600/400''\<rparr>,
     \<lparr>id_t = ''f-land-4'', title = ''Autumn Foliage'', category = ''Season'',
       description = ''Best spots to see the leaves change color.'',
       imageUrl = Some ''https://picsum.photos/seed/Forest/600/400''\<rparr>,
     \<lparr>id_t = ''f-land-5'', title = ''Desert Bloom'', category = ''Rare'',
       description = ''Rare rainfall creates flowers in the desert.'',
       imageUrl = Some ''https://picsum.photos/seed/Desert/600/400''\<rparr>,
     \<lparr>id_t = ''f-land-6'', title = ''Mountain Pass'', category = ''Adventure'',
       description = ''Dangerous but beautiful road opens for season.'',
       imageUrl = Some ''https://picsum.photos/seed/Mountain/600/400''\<rparr>]"

definition fetchWildlifeTrends_fallback :: "Topic list" where
  "fetchWildlifeTrends_fallback =
    [\<lparr>id_t = ''f-wild-1'', title = ''Viral Pygmy Hippo'', category = ''Zoo'',
       description = ''The internet falls in love with a new zoo icon.'',
       imageUrl = Some ''https://picsum.photos/seed/Hippo/600/400''\<rparr>,
     \<lparr>id_t = ''f-wild-2'', title = ''Rare Bird Sighting'', category = ''Discovery'',
       description = ''Extinct bird possibly spotted in rainforest.'',
       imageUrl = Some ''https://picsum.photos/seed/Bird/600/400''\<rparr>,
     \<lparr>id_t = ''f-wild-3'', title = ''Panda Return'', category = ''Conservation'',
       description = ''Pandas arriving at new sanctuary.'',
       imageUrl = Some ''https://picsum.photos/seed/Panda/600/400''\<rparr>,
     \<lparr>id_t = ''f-wild-4'', title = ''Cat Distribution'', category = ''Viral'',
       description = ''How stray cats choose their owners.'',
       imageUrl = Some ''https://picsum.photos/seed/Cat/600/400''\<rparr>,
     \<lparr>id_t = ''f-wild-5'', title = ''Whale Migration'', category = ''Ocean'',
       description = ''Massive pod sighted near coast.'',
       imageUrl = Some ''https://picsum.photos/seed/Whale/600/400''\<rparr>,
     \<lparr>id_t = ''f-wild-6'', title = ''Dog Hero'', category = ''News'',
       description = ''Local dog saves family from fire.'',
       imageUrl = Some ''https://picsum.photos/seed/Dog/600/400''\<rparr>]"

definition fetchNewsAndPolitics ::
  "service \<Rightarrow> (nat \<Rightarrow> int) \<Rightarrow> fetch_event list \<times> (api_error + Topic list)" where
  "fetchNewsAndPolitics ai now = fetchTopicsByCategory ai now ''news'' fetchNewsAndPolitics_fallback"

definition fetchMusicTrends ::
  "service \<Rightarrow> (nat \<Rightarrow> int) \<Rightarrow> fetch_event list \<times> (api_error + Topic list)" where
  "fetchMusicTrends ai now = fetchTopicsByCategory ai now ''music'' fetchMusicTrends_fallback"

definition fetchBillboardTrends ::
  "service \<Rightarrow> (nat \<Rightarrow> int) \<Rightarrow> fetch_event list \<times> (api_error + Topic list)" where
  "fetchBillboardTrends ai now = fetchTopicsByCategory ai now ''billboard'' fetchBillboardTrends_fallback"

definition fetchHipHopTrends ::
  "service \<Rightarrow> (nat \<Rightarrow> int) \<Rightarrow> fetch_event list \<times> (api_error + Topic list)" where
  "fetchHipHopTrends ai now = fetchTopicsByCategory ai now ''hiphop'' fetchHipHopTrends_fallback"

definition fetchTechTrends ::
  "service \<Rightarrow> (nat \<Rightarrow> int) \<Rightarrow> fetch_event list \<times> (api_error + Topic list)" where
  "fetchTechTrends ai now = fetchTopicsByCategory ai now ''tech'' fetchTechTrends_fallback"

definition fetchMemeTrends ::
  "service \<Rightarrow> (nat \<Rightarrow> int) \<Rightarrow> fetch_event list \<times> (api_error + Topic list)" where
  "fetchMemeTrends ai now = fetchTopicsByCategory ai now ''meme'' fetchMemeTrends_fallback"

definition fetchGamingTrends ::
  "service \<Rightarrow> (nat \<Rightarrow> int) \<Rightarrow> fetch_event list \<times> (api_error + Topic list)" where
  "fetchGamingTrends ai now = fetchTopicsByCategory ai now ''gaming'' fetchGamingTrends_fallback"

definition fetchLandscapeTrends ::
  "service \<Rightarrow> (nat \<Rightarrow> int) \<Rightarrow> fetch_event list \<times> (api_error + Topic list)" where
  "fetchLandscapeTrends ai now = fetchTopicsByCategory ai now ''landscape'' fetchLandscapeTrends_fallback"

definition fetchWildlifeTrends ::
  "service \<Rightarrow> (nat \<Rightarrow> int) \<Rightarrow> fetch_event list \<times> (api_error + Topic list)" where
  "fetchWildlifeTrends ai now = fetchTopicsByCategory ai now ''wildlife'' fetchWildlifeTrends_fallback"

subsection \<open>App: configuration and persisted state\<close>

definition REFRESH_INTERVAL :: int where
  "REFRESH_INTERVAL = 8 * 60 * 60 * 1000"

datatype SectionId =
  news | tech | music | billboard | hiphop | memes | gaming | landscapes | wildlife

text \<open>The \<^verbatim>\<open>id\<close> fields of \<^verbatim>\<open>SECTIONS_CONFIG\<close>, in order.\<close>

definition SECTIONS_CONFIG :: "string list" where
  "SECTIONS_CONFIG =
     [''news'', ''tech'', ''music'', ''billboard'', ''hiphop'', ''memes'', ''gaming'',
      ''landscapes'', ''wildlife'']"

text \<open>
  A \<^verbatim>\<open>localStorage\<close> item as the code sees it: \<open>None\<close> when \<^verbatim>\<open>getItem\<close> gives
  \<^verbatim>\<open>null\<close> (or the empty string, which is falsy as well), otherwise what
  \<^verbatim>\<open>JSON.parse\<close> makes of the string: an exception or a value.
\<close>

datatype 'a stored = Unparseable | Parsed 'a

text \<open>
  \<^verbatim>\<open>CachedData\<close> as read back from storage. A property that is missing is \<open>None\<close>:
  without \<^verbatim>\<open>timestamp\<close> the age is \<^verbatim>\<open>NaN\<close>, which is below no threshold; reading a
  category of a missing \<^verbatim>\<open>data\<close> throws a \<^verbatim>\<open>TypeError\<close>; a missing category is
  replaced by \<^verbatim>\<open>[]\<close>. A parsed \<^verbatim>\<open>null\<close>, of which no property can be read, ends in
  the \<^verbatim>\<open>catch\<close> block like an item that does not parse.
\<close>

record CachedData =
  timestamp :: "int option"
  data :: "(SectionId \<rightharpoonup> Topic list) option"

subsection \<open>App: preferences\<close>

text \<open>
  The initializer of \<^verbatim>\<open>visibleSections\<close>; \<open>saved\<close> is the item under
  \<^verbatim>\<open>PREFS_KEY\<close>. The object spread \<^verbatim>\<open>{ ...defaults, ...parsed }\<close> is map override.
\<close>

definition defaults :: "string \<rightharpoonup> bool" where
  "defaults = foldl (\<lambda>acc curr. acc(curr \<mapsto> True)) Map.empty SECTIONS_CONFIG"

definition initVisibleSections :: "(string \<rightharpoonup> bool) stored option \<Rightarrow> (string \<rightharpoonup> bool)" where
  "initVisibleSections saved =
     (case saved of
        Some (Parsed parsed) \<Rightarrow> defaults ++ parsed
      | Some Unparseable \<Rightarrow> defaults
      | None \<Rightarrow> defaults)"

subsection \<open>App: loading the topics\<close>

text \<open>
  The state \<^verbatim>\<open>loadTopics\<close> works on: the nine topic cells (\<^verbatim>\<open>sectionDataMap\<close>), the
  flags, the error banner, \<^verbatim>\<open>lastUpdated\<close>, and the item under \<^verbatim>\<open>STORAGE_KEY\<close>.
  \<open>accepts item\<close> says what \<^verbatim>\<open>localStorage.setItem\<close> does with the item: it stores it, or
  it throws (the quota is exceeded, say) and the stored item stays as it was. No function
  changes \<open>accepts\<close>.
\<close>

record App =
  topics :: "SectionId \<Rightarrow> Topic list"
  loading :: bool
  refreshing :: bool
  error :: "string option"
  lastUpdated :: "int option"
  cache :: "CachedData stored option"
  accepts :: "CachedData \<Rightarrow> bool"

text \<open>
  What a run of \<^verbatim>\<open>loadTopics\<close> does to the outside: a \<^verbatim>\<open>Promise.all\<close> over the
  fetchers of some categories, a \<^verbatim>\<open>wait(ms)\<close>, a call of \<^verbatim>\<open>setItem\<close> with the cache
  item (\<open>True\<close>: the item was stored, \<open>False\<close>: the call threw).
\<close>

datatype load_event = Group "SectionId list" | Wait int | SetItem CachedData bool

text \<open>
  Step 1 of \<^verbatim>\<open>loadTopics\<close>: the \<^verbatim>\<open>try\<close> block that restores the state from the cache.
  \<open>Some\<close> is the early \<^verbatim>\<open>return\<close>; \<open>None\<close> is falling through to the fetch, also from
  the \<^verbatim>\<open>catch\<close>, which only logs. An exception can only arise before the first setter
  runs, so falling through leaves the state as it was.
\<close>

definition restoreFromCache :: "int \<Rightarrow> App \<Rightarrow> App option" where
  "restoreFromCache now w =
     (case cache w of
        None \<Rightarrow> None
      | Some Unparseable \<Rightarrow> None
      | Some (Parsed parsed) \<Rightarrow>
          (case timestamp parsed of
             None \<Rightarrow> None
           | Some ts \<Rightarrow>
               let age = now - ts
               in if age < REFRESH_INTERVAL then
                    (case data parsed of
                       None \<Rightarrow> None
                     | Some d \<Rightarrow>
                         Some (w\<lparr>topics := (\<lambda>c. case d c of Some l \<Rightarrow> l | None \<Rightarrow> []),
                                 lastUpdated := Some ts,
                                 loading := False,
                                 refreshing := False\<rparr>))
                  else None))"

text \<open>The \<^verbatim>\<open>catch\<close> and \<^verbatim>\<open>finally\<close> blocks of step 2, and \<^verbatim>\<open>finally\<close> alone.\<close>

definition failed :: "App \<Rightarrow> App" where
  "failed w =
     w\<lparr>error := Some ''Failed to load trending topics. Please check your connection.'',
       loading := False, refreshing := False\<rparr>"

definition finished :: "App \<Rightarrow> App" where
  "finished w = w\<lparr>loading := False, refreshing := False\<rparr>"

text \<open>
  Steps 2 and 3 of \<^verbatim>\<open>loadTopics\<close>: the four batches and the write of the cache.
  \<open>fetchers c\<close> is the settled promise of the fetcher whose result goes to cell \<open>c\<close>
  (\<^verbatim>\<open>fetchNewsAndPolitics()\<close> for \<open>news\<close>, and so on); \<^verbatim>\<open>Promise.all\<close> rejects when
  one of its promises does, and the rejection skips the rest of the \<^verbatim>\<open>try\<close> block.
  \<open>now\<close> is \<^verbatim>\<open>Date.now()\<close> after the last batch. The write comes last in the \<^verbatim>\<open>try\<close>
  block, after the setters of the fourth batch and \<^verbatim>\<open>setLastUpdated(now)\<close>: when it
  throws, the \<^verbatim>\<open>catch\<close> block runs on the state those setters have left.
\<close>

definition fetchCycle ::
  "(SectionId \<Rightarrow> 'e + Topic list) \<Rightarrow> int \<Rightarrow> App \<Rightarrow> App \<times> load_event list" where
  "fetchCycle fetchers now w =
     (case (fetchers news, fetchers tech) of
        (Inr n, Inr t) \<Rightarrow>
          let w1 = w\<lparr>topics := (topics w)(news := n, tech := t)\<rparr> in
          (case (fetchers music, fetchers billboard, fetchers hiphop) of
             (Inr m, Inr b, Inr h) \<Rightarrow>
               let w2 = w1\<lparr>topics := (topics w1)(music := m, billboard := b, hiphop := h)\<rparr> in
               (case (fetchers memes, fetchers gaming) of
                  (Inr me, Inr g) \<Rightarrow>
                    let w3 = w2\<lparr>topics := (topics w2)(memes := me, gaming := g)\<rparr> in
                    (case (fetchers landscapes, fetchers wildlife) of
                       (Inr l, Inr wi) \<Rightarrow>
                         let w4 = w3\<lparr>topics := (topics w3)(landscapes := l, wildlife := wi)\<rparr>;
                             w5 = w4\<lparr>lastUpdated := Some now\<rparr>;
                             cacheData =
                               \<lparr>timestamp = Some now,
                                data = Some [news \<mapsto> n, tech \<mapsto> t, music \<mapsto> m,
                                             billboard \<mapsto> b, hiphop \<mapsto> h, memes \<mapsto> me,
                                             gaming \<mapsto> g, landscapes \<mapsto> l, wildlife \<mapsto> wi]\<rparr>
                         in (if accepts w5 cacheData
                             then finished (w5\<lparr>cache := Some (Parsed cacheData)\<rparr>)
                             else failed w5,
                             [Group [news, tech], Wait 1500,
                              Group [music, billboard, hiphop], Wait 1500,
                              Group [memes, gaming], Wait 1500,
                              Group [landscapes, wildlife],
                              SetItem cacheData (accepts w5 cacheData)])
                     | _ \<Rightarrow>
                         (failed w3,
                          [Group [news, tech], Wait 1500,
                           Group [music, billboard, hiphop], Wait 1500,
                           Group [memes, gaming], Wait 1500,
                           Group [landscapes, wildlife]]))
                | _ \<Rightarrow>
                    (failed w2,
                     [Group [news, tech], Wait 1500,
                      Group [music, billboard, hiphop], Wait 1500,
                      Group [memes, gaming]]))
           | _ \<Rightarrow>
               (failed w1,
                [Group [news, tech], Wait 1500, Group [music, billboard, hiphop]]))
      | _ \<Rightarrow> (failed w, [Group [news, tech]]))"

text \<open>
  \<^verbatim>\<open>loadTopics(forceRefresh)\<close>; \<open>now\<close> is \<^verbatim>\<open>Date.now()\<close> at the cache check and
  \<open>now'\<close> the one after the last batch.
\<close>

definition loadTopics ::
  "(SectionId \<Rightarrow> 'e + Topic list) \<Rightarrow> int \<Rightarrow> int \<Rightarrow> bool \<Rightarrow> App \<Rightarrow> App \<times> load_event list" where
  "loadTopics fetchers now now' forceRefresh w0 =
     (let w = w0\<lparr>error := None\<rparr>
      in case (if \<not> forceRefresh then restoreFromCache now w else None) of
           Some restored \<Rightarrow> (restored, [])
         | None \<Rightarrow>
             fetchCycle fetchers now' (if \<not> forceRefresh then w\<lparr>loading := True\<rparr> else w))"

text \<open>
  The callback of the 60 second interval: \<open>Some force\<close> when it calls
  \<^verbatim>\<open>loadTopics(force)\<close>, \<open>None\<close> when it does nothing. \<^verbatim>\<open>if (lastUpdated)\<close> holds for a
  number other than 0.
\<close>

definition intervalCallback :: "int \<Rightarrow> App \<Rightarrow> bool option" where
  "intervalCallback now w =
     (case lastUpdated w of
        None \<Rightarrow> None
      | Some lu \<Rightarrow>
          if lu \<noteq> 0 then
            let age = now - lu
            in if age \<ge> REFRESH_INTERVAL then Some True else None
          else None)"

definition intervalTick ::
  "(SectionId \<Rightarrow> 'e + Topic list) \<Rightarrow> int \<Rightarrow> int \<Rightarrow> App \<Rightarrow> App \<times> load_event list" where
  "intervalTick fetchers now now' w =
     (case intervalCallback now w of
        Some force \<Rightarrow> loadTopics fetchers now now' force w
      | None \<Rightarrow> (w, []))"

text \<open>
  The fetchers as \<^verbatim>\<open>loadTopics\<close> binds them to the cells; \<open>ai c\<close> is how the service
  answers the request for \<open>c\<close> and \<open>clock c\<close> the clock read while parsing its answer.
\<close>

definition appFetchers ::
  "(SectionId \<Rightarrow> service) \<Rightarrow> (SectionId \<Rightarrow> nat \<Rightarrow> int) \<Rightarrow> SectionId \<Rightarrow> api_error + Topic list" where
  "appFetchers ai clock c =
     snd (case c of
            news \<Rightarrow> fetchNewsAndPolitics (ai c) (clock c)
          | tech \<Rightarrow> fetchTechTrends (ai c) (clock c)
          | music \<Rightarrow> fetchMusicTrends (ai c) (clock c)
          | billboard \<Rightarrow> fetchBillboardTrends (ai c) (clock c)
          | hiphop \<Rightarrow> fetchHipHopTrends (ai c) (clock c)
          | memes \<Rightarrow> fetchMemeTrends (ai c) (clock c)
          | gaming \<Rightarrow> fetchGamingTrends (ai c) (clock c)
          | landscapes \<Rightarrow> fetchLandscapeTrends (ai c) (clock c)
          | wildlife \<Rightarrow> fetchWildlifeTrends (ai c) (clock c))"

subsection \<open>Notions used to state the properties\<close>

text \<open>
  A snapshot that parses to a time stamp and category data and is younger than the
  8 hour threshold at time \<open>now\<close>.
\<close>

definition fresh_snapshot :: "int \<Rightarrow> CachedData stored option \<Rightarrow> bool" where
  "fresh_snapshot now c =
     (case c of
        Some (Parsed p) \<Rightarrow>
          (case (timestamp p, data p) of
             (Some ts, Some d) \<Rightarrow> now - ts < REFRESH_INTERVAL
           | _ \<Rightarrow> False)
      | _ \<Rightarrow> False)"

text \<open>The four groups of a fetch cycle, in the order of their \<^verbatim>\<open>Promise.all\<close> calls.\<close>

definition BATCHES :: "SectionId list list" where
  "BATCHES = [[news, tech], [music, billboard, hiphop], [memes, gaming], [landscapes, wildlife]]"

text \<open>
  The groups that complete in a cycle: those before the first group with a rejected
  fetcher.
\<close>

definition completed :: "(SectionId \<Rightarrow> 'e + Topic list) \<Rightarrow> SectionId list list" where
  "completed fetchers = takeWhile (list_all (\<lambda>c. \<not> isl (fetchers c))) BATCHES"

text \<open>
  The snapshot a cycle builds when every fetcher resolves: the time stamp and the result
  of each of the nine categories.
\<close>

definition snapshotOf :: "int \<Rightarrow> (SectionId \<Rightarrow> 'e + Topic list) \<Rightarrow> CachedData" where
  "snapshotOf now fetchers =
     \<lparr>timestamp = Some now, data = Some (\<lambda>c. Some (projr (fetchers c)))\<rparr>"

text \<open>The fallback list of the fetcher bound to each cell.\<close>

definition fallbackData :: "SectionId \<Rightarrow> Topic list" where
  "fallbackData c =
     (case c of
        news \<Rightarrow> fetchNewsAndPolitics_fallback
      | tech \<Rightarrow> fetchTechTrends_fallback
      | music \<Rightarrow> fetchMusicTrends_fallback
      | billboard \<Rightarrow> fetchBillboardTrends_fallback
      | hiphop \<Rightarrow> fetchHipHopTrends_fallback
      | memes \<Rightarrow> fetchMemeTrends_fallback
      | gaming \<Rightarrow> fetchGamingTrends_fallback
      | landscapes \<Rightarrow> fetchLandscapeTrends_fallback
      | wildlife \<Rightarrow> fetchWildlifeTrends_fallback)"

text \<open>The errors after which \<^verbatim>\<open>generateContentWithRetry\<close> tries again.\<close>

definition retryable :: "api_error \<Rightarrow> bool" where
  "retryable e \<longleftrightarrow> status e = Some 429 \<or> code e = Some 429 \<or> status e = Some 503"

text \<open>The \<^verbatim>\<open>categoryPrefix\<close> argument of the fetcher bound to each cell.\<close>

definition categoryPrefixOf :: "SectionId \<Rightarrow> string" where
  "categoryPrefixOf c =
     (case c of
        news \<Rightarrow> ''news'' | tech \<Rightarrow> ''tech'' | music \<Rightarrow> ''music''
      | billboard \<Rightarrow> ''billboard'' | hiphop \<Rightarrow> ''hiphop'' | memes \<Rightarrow> ''meme''
      | gaming \<Rightarrow> ''gaming'' | landscapes \<Rightarrow> ''landscape'' | wildlife \<Rightarrow> ''wildlife'')"

text \<open>
  A line matches the topic pattern when it contains the start marker, three fields
  separated by bars and the end marker, with no line terminator inside the fields.
\<close>

definition matches_pattern :: "string \<Rightarrow> bool" where
  "matches_pattern line \<longleftrightarrow>
     (\<exists>pre m1 m2 m3 post.
        line = pre @ ''TOPIC_START|'' @ m1 @ ''|'' @ m2 @ ''|'' @ m3 @ ''|TOPIC_END'' @ post
        \<and> \<not> list_ex isLineTerminator (m1 @ m2 @ m3))"

text \<open>The text a response carries: \<^verbatim>\<open>response.text || ""\<close>.\<close>

definition text_of :: "api_response \<Rightarrow> string" where
  "text_of response = (case text_r response of None \<Rightarrow> [] | Some t \<Rightarrow> t)"

subsection \<open>Concrete inputs used in the examples\<close>

definition topicA :: Topic where
  "topicA = \<lparr>id_t = ''a-1'', title = ''Alpha'', category = ''X'', description = ''first'',
             imageUrl = None\<rparr>"

definition topicB :: Topic where
  "topicB = \<lparr>id_t = ''b-1'', title = ''Beta'', category = ''Y'', description = ''second'',
             imageUrl = None\<rparr>"

definition snapshotAt :: "int \<Rightarrow> CachedData" where
  "snapshotAt ts = \<lparr>timestamp = Some ts, data = Some [news \<mapsto> [topicA], tech \<mapsto> [topicB]]\<rparr>"

definition appWith :: "int option \<Rightarrow> CachedData stored option \<Rightarrow> App" where
  "appWith lu c =
     \<lparr>topics = (\<lambda>c. [topicA]), loading = False, refreshing = False, error = None,
      lastUpdated = lu, cache = c, accepts = (\<lambda>item. True)\<rparr>"

text \<open>The same with a storage that takes no write.\<close>

definition appFull :: "int option \<Rightarrow> CachedData stored option \<Rightarrow> App" where
  "appFull lu c =
     \<lparr>topics = (\<lambda>c. [topicA]), loading = False, refreshing = False, error = None,
      lastUpdated = lu, cache = c, accepts = (\<lambda>item. False)\<rparr>"

definition allResolve :: "SectionId \<Rightarrow> unit + Topic list" where
  "allResolve = (\<lambda>c. Inr [topicB])"

definition musicRejects :: "SectionId \<Rightarrow> unit + Topic list" where
  "musicRejects = (\<lambda>c. if c = music then Inl () else Inr [topicB])"

definition allFail :: "SectionId \<Rightarrow> service" where
  "allFail = (\<lambda>c k. Inl \<lparr>status = Some 500, code = None\<rparr>)"

definition newsFails :: "SectionId \<Rightarrow> service" where
  "newsFails =
     (\<lambda>c k. if c = news then Inl \<lparr>status = Some 500, code = None\<rparr>
            else Inr \<lparr>text_r = Some ''TOPIC_START|T|C|D|TOPIC_END''\<rparr>)"

definition clock0 :: "SectionId \<Rightarrow> nat \<Rightarrow> int" where
  "clock0 = (\<lambda>c i. 0)"

definition twoLines :: string where
  "twoLines = ''junk'' @ [CHR 0x0A] @ ''TOPIC_START| T |C|D|TOPIC_END''"

definition serviceOk :: service where
  "serviceOk = (\<lambda>k. Inr \<lparr>text_r = Some twoLines\<rparr>)"

definition serviceJunk :: service where
  "serviceJunk = (\<lambda>k. Inr \<lparr>text_r = Some ''junk''\<rparr>)"

definition rateLimited :: service where
  "rateLimited = (\<lambda>k. Inl \<lparr>status = Some 429, code = None\<rparr>)"

definition serverError :: service where
  "serverError = (\<lambda>k. Inl \<lparr>status = Some 500, code = None\<rparr>)"

definition topicLine :: string where
  "topicLine = ''TOPIC_START|a|b|c|TOPIC_END''"

definition elevenLines :: string where
  "elevenLines = concat (replicate 11 (topicLine @ [CHR 0x0A]))"

definition serviceEleven :: service where
  "serviceEleven = (\<lambda>k. Inr \<lparr>text_r = Some elevenLines\<rparr>)"

section \<open>Cache policy of loadTopics\<close>

lemma fetchCycle_first: "take 1 (snd (fetchCycle f now' w)) = [Group [news, tech]]"
  by (simp add: fetchCycle_def Let_def split: sum.splits prod.splits)

lemma fetchCycle_trace_nonempty: "snd (fetchCycle f now' w) \<noteq> []"
  using fetchCycle_first [of f now' w] by auto

lemma fresh_snapshot_iff:
  "fresh_snapshot now c \<longleftrightarrow>
     (\<exists>ts d. c = Some (Parsed \<lparr>timestamp = Some ts, data = Some d\<rparr>)
             \<and> now - ts < REFRESH_INTERVAL)"
proof (cases c)
  case None
  then show ?thesis by (simp add: fresh_snapshot_def)
next
  case (Some s)
  show ?thesis
  proof (cases s)
    case Unparseable
    with Some show ?thesis by (simp add: fresh_snapshot_def)
  next
    case (Parsed p)
    obtain t d where p: "p = \<lparr>timestamp = t, data = d\<rparr>"
      by (cases p) simp
    show ?thesis
      using Some Parsed p by (auto simp: fresh_snapshot_def split: option.splits)
  qed
qed

lemma restoreFromCache_iff:
  "restoreFromCache now w \<noteq> None \<longleftrightarrow> fresh_snapshot now (cache w)"
  by (auto simp: restoreFromCache_def fresh_snapshot_def Let_def
           split: option.splits stored.splits)

lemma restoreFromCache_fresh:
  assumes "cache w = Some (Parsed \<lparr>timestamp = Some ts, data = Some d\<rparr>)"
    and "now - ts < REFRESH_INTERVAL"
  shows "restoreFromCache now w =
           Some (w\<lparr>topics := (\<lambda>c. case d c of Some l \<Rightarrow> l | None \<Rightarrow> []),
                   lastUpdated := Some ts, loading := False, refreshing := False\<rparr>)"
  using assms by (simp add: restoreFromCache_def)

lemma loadTopics_miss:
  assumes "\<not> fresh_snapshot now (cache w)"
  shows "loadTopics f now now' False w = fetchCycle f now' (w\<lparr>error := None, loading := True\<rparr>)"
proof -
  have "restoreFromCache now (w\<lparr>error := None\<rparr>) = None"
    using assms restoreFromCache_iff [of now "w\<lparr>error := None\<rparr>"] by simp
  then show ?thesis
    by (simp add: loadTopics_def)
qed

text \<open>
  Claim C1. \<^verbatim>\<open>loadTopics(false)\<close> issues no external call exactly when the cache item
  parses to a snapshot younger than 8 hours, and then shows the snapshot's topic sets
  (an empty list for a category the snapshot lacks) and its time stamp. In every other
  case (item absent, not parseable, without time stamp or data, or stale) it runs the
  fetch cycle. \<^verbatim>\<open>loadTopics(true)\<close> runs the fetch cycle whatever the cache holds. A
  fetch cycle starts with the requests of the first group.
\<close>

theorem loadTopics_cache_policy:
  "(snd (loadTopics f now now' False w) = [] \<longleftrightarrow> fresh_snapshot now (cache w))
   \<and> (fresh_snapshot now (cache w) \<longleftrightarrow>
        (\<exists>ts d. cache w = Some (Parsed \<lparr>timestamp = Some ts, data = Some d\<rparr>)
                \<and> now - ts < REFRESH_INTERVAL))
   \<and> (\<forall>ts d. cache w = Some (Parsed \<lparr>timestamp = Some ts, data = Some d\<rparr>)
              \<and> now - ts < REFRESH_INTERVAL
        \<longrightarrow> loadTopics f now now' False w =
              (w\<lparr>error := None,
                 topics := (\<lambda>c. case d c of Some l \<Rightarrow> l | None \<Rightarrow> []),
                 lastUpdated := Some ts, loading := False, refreshing := False\<rparr>, []))
   \<and> (\<not> fresh_snapshot now (cache w)
        \<longrightarrow> loadTopics f now now' False w = fetchCycle f now' (w\<lparr>error := None, loading := True\<rparr>))
   \<and> loadTopics f now now' True w = fetchCycle f now' (w\<lparr>error := None\<rparr>)
   \<and> take 1 (snd (fetchCycle f now' w')) = [Group [news, tech]]"
proof -
  let ?w = "w\<lparr>error := None\<rparr>"
  have a: "snd (loadTopics f now now' False w) = [] \<longleftrightarrow> fresh_snapshot now (cache w)"
  proof (cases "restoreFromCache now ?w")
    case None
    then have "\<not> fresh_snapshot now (cache w)"
      using restoreFromCache_iff [of now ?w] by simp
    then show ?thesis
      using None by (simp add: loadTopics_def fetchCycle_trace_nonempty)
  next
    case (Some r)
    then have "fresh_snapshot now (cache w)"
      using restoreFromCache_iff [of now ?w] by simp
    then show ?thesis
      using Some by (simp add: loadTopics_def)
  qed
  have b: "\<forall>ts d. cache w = Some (Parsed \<lparr>timestamp = Some ts, data = Some d\<rparr>)
              \<and> now - ts < REFRESH_INTERVAL
        \<longrightarrow> loadTopics f now now' False w =
              (w\<lparr>error := None,
                 topics := (\<lambda>c. case d c of Some l \<Rightarrow> l | None \<Rightarrow> []),
                 lastUpdated := Some ts, loading := False, refreshing := False\<rparr>, [])"
    by (simp add: loadTopics_def restoreFromCache_fresh)
  have d: "\<not> fresh_snapshot now (cache w)
        \<longrightarrow> loadTopics f now now' False w = fetchCycle f now' (w\<lparr>error := None, loading := True\<rparr>)"
    by (simp add: loadTopics_miss)
  have e: "loadTopics f now now' True w = fetchCycle f now' (w\<lparr>error := None\<rparr>)"
    by (simp add: loadTopics_def)
  show ?thesis
    using a b d e fresh_snapshot_iff [of now "cache w"] fetchCycle_first [of f now' w']
    by blast
qed

theorem loadTopics_cache_policy_witness:
  "fresh_snapshot 1000 (cache (appWith None (Some (Parsed (snapshotAt 400)))))
   \<and> cache (appWith None (Some (Parsed (snapshotAt 400))))
       = Some (Parsed \<lparr>timestamp = Some 400,
                        data = Some [news \<mapsto> [topicA], tech \<mapsto> [topicB]]\<rparr>)
   \<and> 1000 - 400 < REFRESH_INTERVAL
   \<and> loadTopics allResolve 1000 2000 False (appWith None (Some (Parsed (snapshotAt 400))))
       = (\<lparr>topics = (\<lambda>c. if c = news then [topicA] else if c = tech then [topicB] else []),
           loading = False, refreshing = False, error = None, lastUpdated = Some 400,
           cache = Some (Parsed (snapshotAt 400)), accepts = (\<lambda>item. True)\<rparr>, [])
   \<and> \<not> fresh_snapshot (400 + REFRESH_INTERVAL) (cache (appWith None (Some (Parsed (snapshotAt 400)))))
   \<and> snd (loadTopics allResolve (400 + REFRESH_INTERVAL) 2000 False
            (appWith None (Some (Parsed (snapshotAt 400))))) \<noteq> []
   \<and> \<not> fresh_snapshot 1000 (cache (appWith None (Some Unparseable)))
   \<and> snd (loadTopics allResolve 1000 2000 False (appWith None (Some Unparseable))) \<noteq> []"
proof -
  let ?w = "appWith None (Some (Parsed (snapshotAt 400)))"
  let ?u = "appWith None (Some Unparseable)"
  have f: "fresh_snapshot 1000 (cache ?w)"
    by (simp add: fresh_snapshot_def appWith_def snapshotAt_def REFRESH_INTERVAL_def)
  have s: "\<not> fresh_snapshot (400 + REFRESH_INTERVAL) (cache ?w)"
    by (simp add: fresh_snapshot_def appWith_def snapshotAt_def REFRESH_INTERVAL_def)
  have u: "\<not> fresh_snapshot 1000 (cache ?u)"
    by (simp add: fresh_snapshot_def appWith_def)
  have c: "cache ?w = Some (Parsed \<lparr>timestamp = Some 400,
                                     data = Some [news \<mapsto> [topicA], tech \<mapsto> [topicB]]\<rparr>)"
    by (simp add: appWith_def snapshotAt_def)
  have l: "1000 - 400 < REFRESH_INTERVAL"
    by (simp add: REFRESH_INTERVAL_def)
  note T1 = loadTopics_cache_policy [of allResolve 1000 2000 ?w ?w]
  note T2 = loadTopics_cache_policy [of allResolve "400 + REFRESH_INTERVAL" 2000 ?w ?w]
  note T3 = loadTopics_cache_policy [of allResolve 1000 2000 ?u ?u]
  have "loadTopics allResolve 1000 2000 False ?w
          = (?w\<lparr>error := None,
                 topics := (\<lambda>c. case [news \<mapsto> [topicA], tech \<mapsto> [topicB]] c of
                                   Some l \<Rightarrow> l | None \<Rightarrow> []),
                 lastUpdated := Some 400, loading := False, refreshing := False\<rparr>, [])"
    using T1 [THEN conjunct2, THEN conjunct2, THEN conjunct1] c l by blast
  then have r1: "loadTopics allResolve 1000 2000 False ?w
       = (\<lparr>topics = (\<lambda>c. if c = news then [topicA] else if c = tech then [topicB] else []),
           loading = False, refreshing = False, error = None, lastUpdated = Some 400,
           cache = Some (Parsed (snapshotAt 400)), accepts = (\<lambda>item. True)\<rparr>, [])"
    by (simp add: appWith_def fun_eq_iff)
  have r2: "snd (loadTopics allResolve (400 + REFRESH_INTERVAL) 2000 False ?w) \<noteq> []"
    using T2 [THEN conjunct1] s by blast
  have r3: "snd (loadTopics allResolve 1000 2000 False ?u) \<noteq> []"
    using T3 [THEN conjunct1] u by blast
  show ?thesis
    using f c l r1 s r2 u r3 by (intro conjI)
qed

section \<open>The category fetchers never reject\<close>

lemma generateContentWithRetry_not_retryable:
  "ai k = Inl e \<Longrightarrow> \<not> retryable e \<Longrightarrow> generateContentWithRetry ai k r = ([ApiCall], Inl e)"
  by (subst generateContentWithRetry.simps) (simp add: retryable_def)

lemma fetchTopicsByCategory_result:
  "snd (fetchTopicsByCategory ai now p fb) =
     Inr (case snd (generateContentWithRetry ai 0 3) of
            Inl e \<Rightarrow> fb
          | Inr response \<Rightarrow>
              (let ts = parse_lines p now 0
                          (split_nl (case text_r response of None \<Rightarrow> [] | Some t \<Rightarrow> t))
               in if ts = [] then fb else take 10 ts))"
  by (simp add: fetchTopicsByCategory_def fetchTopicsByCategory_try_def Let_def
           split: sum.splits)

lemma appFetchers_unfold:
  "appFetchers ai clock c =
     snd (fetchTopicsByCategory (ai c) (clock c) (categoryPrefixOf c) (fallbackData c))"
  by (cases c)
     (simp_all add: appFetchers_def categoryPrefixOf_def fallbackData_def
        fetchNewsAndPolitics_def fetchTechTrends_def fetchMusicTrends_def
        fetchBillboardTrends_def fetchHipHopTrends_def fetchMemeTrends_def
        fetchGamingTrends_def fetchLandscapeTrends_def fetchWildlifeTrends_def)

lemma appFetchers_resolves: "\<not> isl (appFetchers ai clock c)"
  by (simp add: appFetchers_unfold fetchTopicsByCategory_result)

lemma appFetchers_fallback:
  "snd (generateContentWithRetry (ai c) 0 3) = Inl e
     \<Longrightarrow> appFetchers ai clock c = Inr (fallbackData c)"
  by (simp add: appFetchers_unfold fetchTopicsByCategory_result)

section \<open>Retry and fallback\<close>

lemma generateContentWithRetry_exhausted:
  assumes "\<forall>k\<le>3. \<exists>e. ai k = Inl e \<and> retryable e"
  shows "generateContentWithRetry ai 0 3
           = ([ApiCall, Delay 2000, ApiCall, Delay 4000, ApiCall, Delay 6000, ApiCall], ai 3)"
proof -
  have "\<exists>e. ai 0 = Inl e \<and> retryable e" "\<exists>e. ai (Suc 0) = Inl e \<and> retryable e"
    "\<exists>e. ai (Suc (Suc 0)) = Inl e \<and> retryable e" "\<exists>e. ai 3 = Inl e \<and> retryable e"
    using assms [rule_format, of 0] assms [rule_format, of "Suc 0"]
      assms [rule_format, of "Suc (Suc 0)"] assms [rule_format, of 3]
    by simp_all
  then obtain e0 e1 e2 e3 where
    e: "ai 0 = Inl e0" "retryable e0" "ai (Suc 0) = Inl e1" "retryable e1"
       "ai (Suc (Suc 0)) = Inl e2" "retryable e2" "ai 3 = Inl e3"
    by blast
  have 3: "generateContentWithRetry ai 3 0 = ([ApiCall], ai 3)"
    using e(7) by (subst generateContentWithRetry.simps) simp
  have 2: "generateContentWithRetry ai (Suc (Suc 0)) (Suc 0)
             = ([ApiCall, Delay 6000, ApiCall], ai 3)"
    using e(5,6) 3 by (subst generateContentWithRetry.simps) (simp add: retryable_def numeral_3_eq_3)
  have 1: "generateContentWithRetry ai (Suc 0) 2
             = ([ApiCall, Delay 4000, ApiCall, Delay 6000, ApiCall], ai 3)"
    using e(3,4) 2 by (subst generateContentWithRetry.simps) (simp add: retryable_def)
  show ?thesis
    using e(1,2) 1 by (subst generateContentWithRetry.simps) (simp add: retryable_def)
qed

lemma generateContentWithRetry_calls:
  "length (filter (\<lambda>ev. ev = ApiCall) (fst (generateContentWithRetry ai k r))) \<le> Suc r"
proof (induction r arbitrary: k)
  case 0
  show ?case
    by (subst generateContentWithRetry.simps) (simp split: sum.splits)
next
  case (Suc r)
  show ?case
    using Suc.IH [of "Suc k"]
    by (subst generateContentWithRetry.simps) (auto split: sum.splits prod.splits)
qed

text \<open>
  Claim C2. When the first call and each of the three retries signal a rate limit (status
  or code 429) or an unavailable service (status 503), the call is made four times in
  all, with pauses of 2000, 4000 and 6000 ms before the second, third and fourth, and the
  category fetch then returns its fallback list. An error of any other kind is not
  retried and gives the fallback list at once. Whatever error the retry wrapper ends
  with, the category fetch returns the fallback list; it never rejects, and it never
  makes more than four calls.
\<close>

theorem fetchTopicsByCategory_retry:
  "((\<forall>k\<le>3. \<exists>e. ai k = Inl e \<and> retryable e) \<longrightarrow>
      fetchTopicsByCategory ai now p fb
        = ([ApiCall, Delay 2000, ApiCall, Delay 4000, ApiCall, Delay 6000, ApiCall], Inr fb))
   \<and> (\<forall>e. ai 0 = Inl e \<and> \<not> retryable e \<longrightarrow>
         fetchTopicsByCategory ai now p fb = ([ApiCall], Inr fb))
   \<and> (\<forall>e. snd (generateContentWithRetry ai 0 3) = Inl e \<longrightarrow>
         snd (fetchTopicsByCategory ai now p fb) = Inr fb)
   \<and> length (filter (\<lambda>ev. ev = ApiCall) (fst (fetchTopicsByCategory ai now p fb))) \<le> 4
   \<and> \<not> isl (snd (fetchTopicsByCategory ai now p fb))"
proof -
  have a: "(\<forall>k\<le>3. \<exists>e. ai k = Inl e \<and> retryable e) \<longrightarrow>
      fetchTopicsByCategory ai now p fb
        = ([ApiCall, Delay 2000, ApiCall, Delay 4000, ApiCall, Delay 6000, ApiCall], Inr fb)"
  proof
    assume h: "\<forall>k\<le>3. \<exists>e. ai k = Inl e \<and> retryable e"
    then obtain e where "ai 3 = Inl e" by blast
    then show "fetchTopicsByCategory ai now p fb
        = ([ApiCall, Delay 2000, ApiCall, Delay 4000, ApiCall, Delay 6000, ApiCall], Inr fb)"
      by (simp add: fetchTopicsByCategory_def fetchTopicsByCategory_try_def
            generateContentWithRetry_exhausted [OF h])
  qed
  have b: "\<forall>e. ai 0 = Inl e \<and> \<not> retryable e \<longrightarrow>
         fetchTopicsByCategory ai now p fb = ([ApiCall], Inr fb)"
    by (simp add: fetchTopicsByCategory_def fetchTopicsByCategory_try_def
          generateContentWithRetry_not_retryable)
  have c: "\<forall>e. snd (generateContentWithRetry ai 0 3) = Inl e \<longrightarrow>
         snd (fetchTopicsByCategory ai now p fb) = Inr fb"
    by (simp add: fetchTopicsByCategory_result)
  have d: "length (filter (\<lambda>ev. ev = ApiCall) (fst (fetchTopicsByCategory ai now p fb))) \<le> 4"
    using generateContentWithRetry_calls [of ai 0 3] by (simp add: fetchTopicsByCategory_def)
  have e: "\<not> isl (snd (fetchTopicsByCategory ai now p fb))"
    by (simp add: fetchTopicsByCategory_result)
  show ?thesis using a b c d e by blast
qed

theorem fetchTopicsByCategory_retry_witness:
  "rateLimited 0 = Inl \<lparr>status = Some 429, code = None\<rparr>
   \<and> rateLimited 1 = Inl \<lparr>status = Some 429, code = None\<rparr>
   \<and> rateLimited 2 = Inl \<lparr>status = Some 429, code = None\<rparr>
   \<and> rateLimited 3 = Inl \<lparr>status = Some 429, code = None\<rparr>
   \<and> retryable \<lparr>status = Some 429, code = None\<rparr>
   \<and> fetchTopicsByCategory rateLimited (\<lambda>i. 0) ''news'' fetchNewsAndPolitics_fallback
       = ([ApiCall, Delay 2000, ApiCall, Delay 4000, ApiCall, Delay 6000, ApiCall],
          Inr fetchNewsAndPolitics_fallback)
   \<and> serverError 0 = Inl \<lparr>status = Some 500, code = None\<rparr>
   \<and> \<not> retryable \<lparr>status = Some 500, code = None\<rparr>
   \<and> fetchTopicsByCategory serverError (\<lambda>i. 0) ''news'' fetchNewsAndPolitics_fallback
       = ([ApiCall], Inr fetchNewsAndPolitics_fallback)"
proof -
  have r: "rateLimited k = Inl \<lparr>status = Some 429, code = None\<rparr>" for k
    by (simp add: rateLimited_def)
  have y: "retryable \<lparr>status = Some 429, code = None\<rparr>"
    by (simp add: retryable_def)
  have h: "\<forall>k\<le>3. \<exists>e. rateLimited k = Inl e \<and> retryable e"
    using r y by blast
  have s: "serverError 0 = Inl \<lparr>status = Some 500, code = None\<rparr>"
    by (simp add: serverError_def)
  have n: "\<not> retryable \<lparr>status = Some 500, code = None\<rparr>"
    by (simp add: retryable_def)
  show ?thesis
    using h s n r y
      fetchTopicsByCategory_retry [of rateLimited "\<lambda>i. 0" "''news''" fetchNewsAndPolitics_fallback]
      fetchTopicsByCategory_retry [of serverError "\<lambda>i. 0" "''news''" fetchNewsAndPolitics_fallback]
    by blast
qed

section \<open>The regular expression of the parser\<close>

text \<open>
  The backtracking matcher finds a match exactly in the lines that contain the pattern,
  and what it captures is a decomposition of the line along the pattern.
\<close>

lemma lit_Some: "lit p k s = Some r \<longleftrightarrow> (\<exists>rest. s = p @ rest \<and> k rest = Some r)"
proof
  assume "lit p k s = Some r"
  then have t: "take (length p) s = p" and k: "k (drop (length p) s) = Some r"
    by (auto simp: lit_def split: if_splits)
  have "s = p @ drop (length p) s"
    using t append_take_drop_id [of "length p" s] by simp
  with k show "\<exists>rest. s = p @ rest \<and> k rest = Some r" by blast
next
  assume "\<exists>rest. s = p @ rest \<and> k rest = Some r"
  then show "lit p k s = Some r" by (auto simp: lit_def)
qed

lemma lazy_group_sound:
  "lazy_group k s = Some (g, r)
     \<Longrightarrow> \<exists>rest. s = g @ rest \<and> \<not> list_ex isLineTerminator g \<and> k rest = Some r"
proof (induction s arbitrary: g)
  case Nil
  then show ?case by (auto split: option.splits)
next
  case (Cons c cs)
  show ?case
  proof (cases "k (c # cs)")
    case (Some r')
    with Cons.prems show ?thesis by auto
  next
    case None
    with Cons.prems obtain g' where g: "g = c # g'" "\<not> isLineTerminator c"
      "lazy_group k cs = Some (g', r)"
      by (auto split: if_splits option.splits)
    from Cons.IH [OF g(3)] obtain rest where
      "cs = g' @ rest" "\<not> list_ex isLineTerminator g'" "k rest = Some r" by blast
    with g show ?thesis by auto
  qed
qed

lemma lazy_group_complete:
  "k rest \<noteq> None \<Longrightarrow> \<not> list_ex isLineTerminator g \<Longrightarrow> lazy_group k (g @ rest) \<noteq> None"
proof (induction g)
  case Nil
  then show ?case by (cases rest) auto
next
  case (Cons c g)
  then have "lazy_group k (g @ rest) \<noteq> None" and "\<not> isLineTerminator c" by auto
  then show ?case by (auto split: option.splits)
qed

lemma regex_at_sound:
  assumes "regex_at s = Some (m1, m2, m3)"
  shows "\<exists>post. s = ''TOPIC_START|'' @ m1 @ ''|'' @ m2 @ ''|'' @ m3 @ ''|TOPIC_END'' @ post
           \<and> \<not> list_ex isLineTerminator (m1 @ m2 @ m3)"
proof -
  let ?k3 = "lit ''|TOPIC_END'' (\<lambda>rest. Some ())"
  let ?k2 = "lit ''|'' (lazy_group ?k3)"
  let ?k1 = "lit ''|'' (lazy_group ?k2)"
  from assms have "lit ''TOPIC_START|'' (lazy_group ?k1) s = Some (m1, m2, m3, ())"
    by (auto simp: regex_at_def split: option.splits)
  then obtain r0 where s0: "s = ''TOPIC_START|'' @ r0"
    and l1: "lazy_group ?k1 r0 = Some (m1, m2, m3, ())"
    unfolding lit_Some by blast
  from lazy_group_sound [OF l1] obtain r1 where s1: "r0 = m1 @ r1"
    and t1: "\<not> list_ex isLineTerminator m1" and k1: "?k1 r1 = Some (m2, m3, ())"
    by blast
  from k1 obtain r1' where s1': "r1 = ''|'' @ r1'"
    and l2: "lazy_group ?k2 r1' = Some (m2, m3, ())"
    unfolding lit_Some by blast
  from lazy_group_sound [OF l2] obtain r2 where s2: "r1' = m2 @ r2"
    and t2: "\<not> list_ex isLineTerminator m2" and k2: "?k2 r2 = Some (m3, ())"
    by blast
  from k2 obtain r2' where s2': "r2 = ''|'' @ r2'"
    and l3: "lazy_group ?k3 r2' = Some (m3, ())"
    unfolding lit_Some by blast
  from lazy_group_sound [OF l3] obtain r3 where s3: "r2' = m3 @ r3"
    and t3: "\<not> list_ex isLineTerminator m3" and k3: "?k3 r3 = Some ()"
    by blast
  from k3 obtain post where s4: "r3 = ''|TOPIC_END'' @ post"
    unfolding lit_Some by blast
  have "s = ''TOPIC_START|'' @ m1 @ ''|'' @ m2 @ ''|'' @ m3 @ ''|TOPIC_END'' @ post"
    unfolding s0 s1 s1' s2 s2' s3 s4 ..
  moreover have "\<not> list_ex isLineTerminator (m1 @ m2 @ m3)"
    using t1 t2 t3 by (auto simp: list_ex_iff)
  ultimately show ?thesis by blast
qed

lemma lit_append: "lit p k (p @ rest) = k rest"
  by (simp add: lit_def)

lemma regex_at_complete:
  assumes "\<not> list_ex isLineTerminator (m1 @ m2 @ m3)"
  shows "regex_at (''TOPIC_START|'' @ m1 @ ''|'' @ m2 @ ''|'' @ m3 @ ''|TOPIC_END'' @ post)
           \<noteq> None"
proof -
  let ?k3 = "lit ''|TOPIC_END'' (\<lambda>rest. Some ())"
  let ?k2 = "lit ''|'' (lazy_group ?k3)"
  let ?k1 = "lit ''|'' (lazy_group ?k2)"
  from assms have t: "\<not> list_ex isLineTerminator m1" "\<not> list_ex isLineTerminator m2"
    "\<not> list_ex isLineTerminator m3"
    by (auto simp: list_ex_iff)
  have "?k3 (''|TOPIC_END'' @ post) \<noteq> None"
    by (simp only: lit_append) simp
  then have "lazy_group ?k3 (m3 @ ''|TOPIC_END'' @ post) \<noteq> None"
    using t(3) by (rule lazy_group_complete)
  then have "?k2 (''|'' @ m3 @ ''|TOPIC_END'' @ post) \<noteq> None"
    by (simp only: lit_append simp_thms)
  then have "lazy_group ?k2 (m2 @ ''|'' @ m3 @ ''|TOPIC_END'' @ post) \<noteq> None"
    using t(2) by (rule lazy_group_complete)
  then have "?k1 (''|'' @ m2 @ ''|'' @ m3 @ ''|TOPIC_END'' @ post) \<noteq> None"
    by (simp only: lit_append simp_thms)
  then have "lazy_group ?k1 (m1 @ ''|'' @ m2 @ ''|'' @ m3 @ ''|TOPIC_END'' @ post) \<noteq> None"
    using t(1) by (rule lazy_group_complete)
  then have "lit ''TOPIC_START|'' (lazy_group ?k1)
               (''TOPIC_START|'' @ m1 @ ''|'' @ m2 @ ''|'' @ m3 @ ''|TOPIC_END'' @ post) \<noteq> None"
    by (simp only: lit_append simp_thms)
  then show ?thesis
    by (auto simp: regex_at_def split: option.splits)
qed

lemma regex_match_sound:
  "regex_match s = Some (m1, m2, m3)
     \<Longrightarrow> \<exists>pre post.
           s = pre @ ''TOPIC_START|'' @ m1 @ ''|'' @ m2 @ ''|'' @ m3 @ ''|TOPIC_END'' @ post
           \<and> \<not> list_ex isLineTerminator (m1 @ m2 @ m3)"
proof (induction s)
  case Nil
  then have "regex_at [] = Some (m1, m2, m3)" by (simp add: regex_match.simps)
  from regex_at_sound [OF this] show ?case by simp
next
  case (Cons c cs)
  show ?case
  proof (cases "regex_at (c # cs)")
    case None
    with Cons.prems have "regex_match cs = Some (m1, m2, m3)"
      by (simp add: regex_match.simps)
    from Cons.IH [OF this] obtain pre post where
      "cs = pre @ ''TOPIC_START|'' @ m1 @ ''|'' @ m2 @ ''|'' @ m3 @ ''|TOPIC_END'' @ post"
      "\<not> list_ex isLineTerminator (m1 @ m2 @ m3)" by blast
    then have "c # cs = (c # pre) @ ''TOPIC_START|'' @ m1 @ ''|'' @ m2 @ ''|'' @ m3
                 @ ''|TOPIC_END'' @ post \<and> \<not> list_ex isLineTerminator (m1 @ m2 @ m3)"
      by simp
    then show ?thesis by blast
  next
    case (Some m)
    with Cons.prems have "regex_at (c # cs) = Some (m1, m2, m3)"
      by (simp add: regex_match.simps)
    from regex_at_sound [OF this] obtain post where
      "c # cs = [] @ ''TOPIC_START|'' @ m1 @ ''|'' @ m2 @ ''|'' @ m3 @ ''|TOPIC_END'' @ post
        \<and> \<not> list_ex isLineTerminator (m1 @ m2 @ m3)"
      by auto
    then show ?thesis by blast
  qed
qed

lemma regex_match_complete:
  assumes "\<not> list_ex isLineTerminator (m1 @ m2 @ m3)"
  shows "regex_match
           (pre @ ''TOPIC_START|'' @ m1 @ ''|'' @ m2 @ ''|'' @ m3 @ ''|TOPIC_END'' @ post)
         \<noteq> None"
proof (induction pre)
  case Nil
  have "regex_match (''TOPIC_START|'' @ m1 @ ''|'' @ m2 @ ''|'' @ m3 @ ''|TOPIC_END'' @ post)
          = regex_at (''TOPIC_START|'' @ m1 @ ''|'' @ m2 @ ''|'' @ m3 @ ''|TOPIC_END'' @ post)"
    using regex_at_complete [OF assms, of post]
    by (auto simp: regex_match.simps split: option.splits)
  then show ?case
    using regex_at_complete [OF assms, of post] by simp
next
  case (Cons c pre)
  then show ?case
    by (auto simp: regex_match.simps split: option.splits)
qed

lemma regex_match_iff: "regex_match line \<noteq> None \<longleftrightarrow> matches_pattern line"
proof
  assume "regex_match line \<noteq> None"
  then obtain m1 m2 m3 where "regex_match line = Some (m1, m2, m3)" by auto
  from regex_match_sound [OF this] show "matches_pattern line"
    unfolding matches_pattern_def by blast
next
  assume "matches_pattern line"
  then show "regex_match line \<noteq> None"
    unfolding matches_pattern_def using regex_match_complete by blast
qed

section \<open>Parsing a response\<close>

lemma parse_lines_append:
  "parse_lines p now i (xs @ ys)
     = parse_lines p now i xs @ parse_lines p now (i + length xs) ys"
  by (induction xs arbitrary: i) simp_all

lemma parse_lines_length:
  "length (parse_lines p now i ls) = length (filter matches_pattern ls)"
  by (induction ls arbitrary: i)
     (auto simp: regex_match_iff [symmetric] split: option.splits)

lemma parse_lines_empty_iff:
  "parse_lines p now i ls = [] \<longleftrightarrow> filter matches_pattern ls = []"
  using parse_lines_length [of p now i ls] by (metis length_0_conv)

text \<open>
  Claim C3. The parser makes one topic for each line that matches the pattern and none
  for any other line: a line that does not match contributes nothing to the result, a
  line that matches contributes, at its place, the topic made of its trimmed fields.
  When the call succeeded, the category fetch returns the fallback list if no line
  matches, and otherwise the first 10 parsed topics, so as many topics as lines match,
  up to 10.
\<close>

theorem fetchTopicsByCategory_parse:
  "length (parse_lines p now i ls) = length (filter matches_pattern ls)
   \<and> (\<not> matches_pattern l \<longrightarrow>
        parse_lines p now i (xs @ l # ys)
          = parse_lines p now i xs @ parse_lines p now (Suc (i + length xs)) ys)
   \<and> (matches_pattern l \<longrightarrow>
        (\<exists>pre m1 m2 m3 post.
           l = pre @ ''TOPIC_START|'' @ m1 @ ''|'' @ m2 @ ''|'' @ m3 @ ''|TOPIC_END'' @ post
           \<and> \<not> list_ex isLineTerminator (m1 @ m2 @ m3)
           \<and> parse_lines p now i (xs @ l # ys)
               = parse_lines p now i xs
                 @ [\<lparr>id_t = p @ ''-'' @ show_nat (i + length xs) @ ''-''
                             @ show_int (now (i + length xs)),
                      title = trim m1, category = trim m2, description = trim m3,
                      imageUrl = Some (''https://picsum.photos/seed/''
                                       @ filter (\<lambda>c. \<not> isWhiteSpace c) m1 @ p
                                       @ ''/600/400'')\<rparr>]
                 @ parse_lines p now (Suc (i + length xs)) ys))
   \<and> (snd (generateContentWithRetry ai 0 3) = Inr response \<longrightarrow>
        snd (fetchTopicsByCategory ai now p fb)
          = Inr (if filter matches_pattern (split_nl (text_of response)) = [] then fb
                 else take 10 (parse_lines p now 0 (split_nl (text_of response))))
        \<and> (filter matches_pattern (split_nl (text_of response)) \<noteq> [] \<longrightarrow>
             length (projr (snd (fetchTopicsByCategory ai now p fb)))
               = min 10 (length (filter matches_pattern (split_nl (text_of response))))))"
proof -
  have a: "\<not> matches_pattern l \<longrightarrow>
        parse_lines p now i (xs @ l # ys)
          = parse_lines p now i xs @ parse_lines p now (Suc (i + length xs)) ys"
  proof
    assume "\<not> matches_pattern l"
    then have "regex_match l = None"
      using regex_match_iff [of l] by blast
    then show "parse_lines p now i (xs @ l # ys)
          = parse_lines p now i xs @ parse_lines p now (Suc (i + length xs)) ys"
      by (simp add: parse_lines_append)
  qed
  have b: "matches_pattern l \<longrightarrow>
        (\<exists>pre m1 m2 m3 post.
           l = pre @ ''TOPIC_START|'' @ m1 @ ''|'' @ m2 @ ''|'' @ m3 @ ''|TOPIC_END'' @ post
           \<and> \<not> list_ex isLineTerminator (m1 @ m2 @ m3)
           \<and> parse_lines p now i (xs @ l # ys)
               = parse_lines p now i xs
                 @ [\<lparr>id_t = p @ ''-'' @ show_nat (i + length xs) @ ''-''
                             @ show_int (now (i + length xs)),
                      title = trim m1, category = trim m2, description = trim m3,
                      imageUrl = Some (''https://picsum.photos/seed/''
                                       @ filter (\<lambda>c. \<not> isWhiteSpace c) m1 @ p
                                       @ ''/600/400'')\<rparr>]
                 @ parse_lines p now (Suc (i + length xs)) ys)"
  proof
    assume "matches_pattern l"
    then obtain m1 m2 m3 where m: "regex_match l = Some (m1, m2, m3)"
      using regex_match_iff [of l] by auto
    from regex_match_sound [OF m] obtain pre post where
      d: "l = pre @ ''TOPIC_START|'' @ m1 @ ''|'' @ m2 @ ''|'' @ m3 @ ''|TOPIC_END'' @ post"
      and t: "\<not> list_ex isLineTerminator (m1 @ m2 @ m3)" by blast
    have "parse_lines p now i (xs @ l # ys)
               = parse_lines p now i xs
                 @ [\<lparr>id_t = p @ ''-'' @ show_nat (i + length xs) @ ''-''
                             @ show_int (now (i + length xs)),
                      title = trim m1, category = trim m2, description = trim m3,
                      imageUrl = Some (''https://picsum.photos/seed/''
                                       @ filter (\<lambda>c. \<not> isWhiteSpace c) m1 @ p
                                       @ ''/600/400'')\<rparr>]
                 @ parse_lines p now (Suc (i + length xs)) ys"
      using m by (simp add: parse_lines_append)
    with d t show "\<exists>pre m1 m2 m3 post.
           l = pre @ ''TOPIC_START|'' @ m1 @ ''|'' @ m2 @ ''|'' @ m3 @ ''|TOPIC_END'' @ post
           \<and> \<not> list_ex isLineTerminator (m1 @ m2 @ m3)
           \<and> parse_lines p now i (xs @ l # ys)
               = parse_lines p now i xs
                 @ [\<lparr>id_t = p @ ''-'' @ show_nat (i + length xs) @ ''-''
                             @ show_int (now (i + length xs)),
                      title = trim m1, category = trim m2, description = trim m3,
                      imageUrl = Some (''https://picsum.photos/seed/''
                                       @ filter (\<lambda>c. \<not> isWhiteSpace c) m1 @ p
                                       @ ''/600/400'')\<rparr>]
                 @ parse_lines p now (Suc (i + length xs)) ys"
      by blast
  qed
  have c: "snd (generateContentWithRetry ai 0 3) = Inr response \<longrightarrow>
        snd (fetchTopicsByCategory ai now p fb)
          = Inr (if filter matches_pattern (split_nl (text_of response)) = [] then fb
                 else take 10 (parse_lines p now 0 (split_nl (text_of response))))
        \<and> (filter matches_pattern (split_nl (text_of response)) \<noteq> [] \<longrightarrow>
             length (projr (snd (fetchTopicsByCategory ai now p fb)))
               = min 10 (length (filter matches_pattern (split_nl (text_of response)))))"
  proof
    assume r: "snd (generateContentWithRetry ai 0 3) = Inr response"
    have e: "snd (fetchTopicsByCategory ai now p fb)
          = Inr (if filter matches_pattern (split_nl (text_of response)) = [] then fb
                 else take 10 (parse_lines p now 0 (split_nl (text_of response))))"
      using r parse_lines_empty_iff [of p now 0 "split_nl (text_of response)"]
      by (simp add: fetchTopicsByCategory_result text_of_def Let_def)
    have "filter matches_pattern (split_nl (text_of response)) \<noteq> [] \<longrightarrow>
             length (projr (snd (fetchTopicsByCategory ai now p fb)))
               = min 10 (length (filter matches_pattern (split_nl (text_of response))))"
      by (simp add: e parse_lines_length min.commute)
    with e show "snd (fetchTopicsByCategory ai now p fb)
          = Inr (if filter matches_pattern (split_nl (text_of response)) = [] then fb
                 else take 10 (parse_lines p now 0 (split_nl (text_of response))))
        \<and> (filter matches_pattern (split_nl (text_of response)) \<noteq> [] \<longrightarrow>
             length (projr (snd (fetchTopicsByCategory ai now p fb)))
               = min 10 (length (filter matches_pattern (split_nl (text_of response)))))"
      by blast
  qed
  show ?thesis
    using parse_lines_length [of p now i ls] a b c by blast
qed

lemma split_nl_line:
  "CHR 0x0A \<notin> set l \<Longrightarrow> split_nl (l @ CHR 0x0A # rest) = l # split_nl rest"
  by (induction l) auto

lemma split_nl_replicate:
  "CHR 0x0A \<notin> set l \<Longrightarrow> split_nl (concat (replicate n (l @ [CHR 0x0A]))) = replicate n l @ [[]]"
  by (induction n) (simp_all add: split_nl_line)

lemma split_nl_twoLines: "split_nl twoLines = [''junk'', ''TOPIC_START| T |C|D|TOPIC_END'']"
  by (simp add: twoLines_def)

lemma split_nl_elevenLines: "split_nl elevenLines = replicate 11 topicLine @ [[]]"
  unfolding elevenLines_def by (rule split_nl_replicate) (simp add: topicLine_def)

lemma regex_match_Nil: "regex_match [] = None"
  by (simp add: regex_match.simps regex_at_def lit_def)

lemma regex_match_junk: "regex_match ''junk'' = None"
  by (simp add: regex_match.simps regex_at_def lit_def)

lemma regex_match_topic:
  "regex_match ''TOPIC_START| T |C|D|TOPIC_END'' = Some ('' T '', ''C'', ''D'')"
  by (simp add: regex_match.simps regex_at_def lit_def isLineTerminator_def)

lemma regex_match_topicLine: "regex_match topicLine = Some (''a'', ''b'', ''c'')"
  by (simp add: topicLine_def regex_match.simps regex_at_def lit_def isLineTerminator_def)

text \<open>
  Three responses: a junk line followed by a topic line, a junk line alone, and eleven
  topic lines, of which ten are returned.
\<close>

theorem fetchTopicsByCategory_parse_witness:
  "\<not> matches_pattern ''junk''
   \<and> matches_pattern ''TOPIC_START| T |C|D|TOPIC_END''
   \<and> (\<exists>pre m1 m2 m3 post.
         ''TOPIC_START| T |C|D|TOPIC_END''
            = pre @ ''TOPIC_START|'' @ m1 @ ''|'' @ m2 @ ''|'' @ m3 @ ''|TOPIC_END'' @ post
         \<and> \<not> list_ex isLineTerminator (m1 @ m2 @ m3)
         \<and> parse_lines ''news'' (\<lambda>i. 5) 0 ([''junk''] @ ''TOPIC_START| T |C|D|TOPIC_END'' # [])
             = parse_lines ''news'' (\<lambda>i. 5) 0 [''junk'']
               @ [\<lparr>id_t = ''news'' @ ''-'' @ show_nat (0 + length [''junk'']) @ ''-''
                           @ show_int 5,
                    title = trim m1, category = trim m2, description = trim m3,
                    imageUrl = Some (''https://picsum.photos/seed/''
                                     @ filter (\<lambda>c. \<not> isWhiteSpace c) m1 @ ''news''
                                     @ ''/600/400'')\<rparr>]
               @ parse_lines ''news'' (\<lambda>i. 5) (Suc (0 + length [''junk''])) [])
   \<and> snd (generateContentWithRetry serviceOk 0 3) = Inr \<lparr>text_r = Some twoLines\<rparr>
   \<and> filter matches_pattern (split_nl (text_of \<lparr>text_r = Some twoLines\<rparr>)) \<noteq> []
   \<and> snd (fetchTopicsByCategory serviceOk (\<lambda>i. 5) ''news'' fetchNewsAndPolitics_fallback)
       = Inr [\<lparr>id_t = ''news-1-5'', title = ''T'', category = ''C'', description = ''D'',
                imageUrl = Some ''https://picsum.photos/seed/Tnews/600/400''\<rparr>]
   \<and> snd (generateContentWithRetry serviceJunk 0 3) = Inr \<lparr>text_r = Some ''junk''\<rparr>
   \<and> snd (fetchTopicsByCategory serviceJunk (\<lambda>i. 5) ''news'' fetchNewsAndPolitics_fallback)
       = Inr fetchNewsAndPolitics_fallback
   \<and> snd (generateContentWithRetry serviceEleven 0 3) = Inr \<lparr>text_r = Some elevenLines\<rparr>
   \<and> length (filter matches_pattern (split_nl (text_of \<lparr>text_r = Some elevenLines\<rparr>))) = 11
   \<and> length (projr (snd (fetchTopicsByCategory serviceEleven (\<lambda>i. 5) ''news''
                           fetchNewsAndPolitics_fallback))) = 10"
proof -
  have j: "\<not> matches_pattern ''junk''"
    using regex_match_iff [of "''junk''"] regex_match_junk by simp
  have m: "matches_pattern ''TOPIC_START| T |C|D|TOPIC_END''"
    using regex_match_iff [of "''TOPIC_START| T |C|D|TOPIC_END''"] regex_match_topic by simp
  have ml: "matches_pattern topicLine"
    using regex_match_iff [of topicLine] regex_match_topicLine by simp
  have e: "\<not> matches_pattern []"
    using regex_match_iff [of "[]"] regex_match_Nil by simp
  have g: "snd (generateContentWithRetry serviceOk 0 3) = Inr \<lparr>text_r = Some twoLines\<rparr>"
    by (simp add: generateContentWithRetry.simps serviceOk_def)
  have g': "snd (generateContentWithRetry serviceJunk 0 3) = Inr \<lparr>text_r = Some ''junk''\<rparr>"
    by (simp add: generateContentWithRetry.simps serviceJunk_def)
  have g'': "snd (generateContentWithRetry serviceEleven 0 3)
               = Inr \<lparr>text_r = Some elevenLines\<rparr>"
    by (simp add: generateContentWithRetry.simps serviceEleven_def)
  have s: "split_nl (text_of \<lparr>text_r = Some twoLines\<rparr>)
             = [''junk'', ''TOPIC_START| T |C|D|TOPIC_END'']"
    by (simp add: text_of_def split_nl_twoLines)
  have s': "split_nl (text_of \<lparr>text_r = Some ''junk''\<rparr>) = [''junk'']"
    by (simp add: text_of_def)
  have f: "filter matches_pattern (split_nl (text_of \<lparr>text_r = Some elevenLines\<rparr>))
             = replicate 11 topicLine"
    using ml e by (simp add: text_of_def split_nl_elevenLines)
  have p: "parse_lines ''news'' (\<lambda>i. 5) 0 [''junk'', ''TOPIC_START| T |C|D|TOPIC_END'']
             = [\<lparr>id_t = ''news-1-5'', title = ''T'', category = ''C'', description = ''D'',
                imageUrl = Some ''https://picsum.photos/seed/Tnews/600/400''\<rparr>]"
    by (simp add: regex_match_junk regex_match_topic show_nat.simps digit_char_def show_int_def
          trim_def isWhiteSpace_def isLineTerminator_def)
  note T = fetchTopicsByCategory_parse [of "''news''" "\<lambda>i. 5" 0 "[]"
             "''TOPIC_START| T |C|D|TOPIC_END''" "[''junk'']" "[]"
             serviceOk "\<lparr>text_r = Some twoLines\<rparr>" fetchNewsAndPolitics_fallback]
  note T' = fetchTopicsByCategory_parse [of "''news''" "\<lambda>i. 5" 0 "[]" "''junk''" "[]" "[]"
             serviceJunk "\<lparr>text_r = Some ''junk''\<rparr>" fetchNewsAndPolitics_fallback]
  note T'' = fetchTopicsByCategory_parse [of "''news''" "\<lambda>i. 5" 0 "[]" "[]" "[]" "[]"
             serviceEleven "\<lparr>text_r = Some elevenLines\<rparr>" fetchNewsAndPolitics_fallback]
  note d = T [THEN conjunct2, THEN conjunct2, THEN conjunct1, rule_format, OF m]
  have r: "snd (fetchTopicsByCategory serviceOk (\<lambda>i. 5) ''news'' fetchNewsAndPolitics_fallback)
       = Inr [\<lparr>id_t = ''news-1-5'', title = ''T'', category = ''C'', description = ''D'',
                imageUrl = Some ''https://picsum.photos/seed/Tnews/600/400''\<rparr>]"
    using T [THEN conjunct2, THEN conjunct2, THEN conjunct2, rule_format, OF g,
             THEN conjunct1] j m
    by (simp only: s p) simp
  have r': "snd (fetchTopicsByCategory serviceJunk (\<lambda>i. 5) ''news'' fetchNewsAndPolitics_fallback)
       = Inr fetchNewsAndPolitics_fallback"
    using T' [THEN conjunct2, THEN conjunct2, THEN conjunct2, rule_format, OF g',
              THEN conjunct1] j
    by (simp only: s') simp
  have n: "filter matches_pattern (split_nl (text_of \<lparr>text_r = Some twoLines\<rparr>)) \<noteq> []"
    using m by (simp only: s) simp
  have n'': "filter matches_pattern (split_nl (text_of \<lparr>text_r = Some elevenLines\<rparr>)) \<noteq> []"
    by (simp add: f)
  have r'': "length (projr (snd (fetchTopicsByCategory serviceEleven (\<lambda>i. 5) ''news''
                           fetchNewsAndPolitics_fallback))) = 10"
    using T'' [THEN conjunct2, THEN conjunct2, THEN conjunct2, rule_format, OF g'',
               THEN conjunct2, rule_format, OF n'']
    by (simp add: f)
  have l: "length (filter matches_pattern (split_nl (text_of \<lparr>text_r = Some elevenLines\<rparr>)))
             = 11"
    by (simp add: f)
  show ?thesis
    using j m d g n r g' r' g'' l r'' by (intro conjI)
qed

section \<open>The background staleness check\<close>

lemma intervalCallback_unfold:
  "intervalCallback now w =
     (if \<exists>lu. lastUpdated w = Some lu \<and> lu \<noteq> 0 \<and> now - lu \<ge> REFRESH_INTERVAL
      then Some True else None)"
  by (auto simp: intervalCallback_def Let_def split: option.splits)

text \<open>
  Claim C4, as the code has it. At a tick of the interval, when \<^verbatim>\<open>lastUpdated\<close> is set
  (to a number other than 0) and the time elapsed since it meets or exceeds the 8 hour
  threshold, the callback calls \<^verbatim>\<open>loadTopics(true)\<close>, a forced refresh: the fetch cycle
  runs without a look at the persisted snapshot. Otherwise the tick does nothing. It
  never calls \<^verbatim>\<open>loadTopics(false)\<close>.
\<close>

theorem intervalTick_forced:
  "intervalCallback now w \<noteq> Some False
   \<and> ((\<exists>lu. lastUpdated w = Some lu \<and> lu \<noteq> 0 \<and> now - lu \<ge> REFRESH_INTERVAL)
        \<longrightarrow> intervalCallback now w = Some True
            \<and> intervalTick f now now' w = fetchCycle f now' (w\<lparr>error := None\<rparr>))
   \<and> (\<not> (\<exists>lu. lastUpdated w = Some lu \<and> lu \<noteq> 0 \<and> now - lu \<ge> REFRESH_INTERVAL)
        \<longrightarrow> intervalCallback now w = None \<and> intervalTick f now now' w = (w, []))"
  by (simp add: intervalCallback_unfold intervalTick_def loadTopics_def)

theorem intervalTick_forced_witness:
  "lastUpdated (appWith (Some 1000) (Some (Parsed (snapshotAt (REFRESH_INTERVAL + 500))))) = Some 1000
   \<and> (1000::int) \<noteq> 0 \<and> (1000 + REFRESH_INTERVAL) - 1000 \<ge> REFRESH_INTERVAL
   \<and> intervalCallback (1000 + REFRESH_INTERVAL)
        (appWith (Some 1000) (Some (Parsed (snapshotAt (REFRESH_INTERVAL + 500))))) = Some True
   \<and> lastUpdated (appWith (Some 1000) None) = Some 1000
   \<and> \<not> (999 + REFRESH_INTERVAL) - 1000 \<ge> REFRESH_INTERVAL
   \<and> intervalTick allResolve (999 + REFRESH_INTERVAL) 0 (appWith (Some 1000) None)
       = (appWith (Some 1000) None, [])"
  using intervalTick_forced [of "1000 + REFRESH_INTERVAL"
          "appWith (Some 1000) (Some (Parsed (snapshotAt (REFRESH_INTERVAL + 500))))" allResolve 0]
        intervalTick_forced [of "999 + REFRESH_INTERVAL" "appWith (Some 1000) None" allResolve 0]
  by (simp add: appWith_def)

text \<open>
  Claim C4 as stated fails: with \<^verbatim>\<open>lastUpdated\<close> 8 hours old the callback does not call
  \<^verbatim>\<open>loadTopics(false)\<close>. The difference shows when the persisted snapshot is younger
  than the displayed data (written by another tab, say): the unforced load would restore
  it without a request, the tick runs the fetch cycle.
\<close>

theorem intervalTick_unforced_counterexample:
  "lastUpdated (appWith (Some 1000) (Some (Parsed (snapshotAt (REFRESH_INTERVAL + 500))))) = Some 1000
   \<and> (1000 + REFRESH_INTERVAL) - 1000 \<ge> REFRESH_INTERVAL
   \<and> intervalCallback (1000 + REFRESH_INTERVAL)
        (appWith (Some 1000) (Some (Parsed (snapshotAt (REFRESH_INTERVAL + 500))))) \<noteq> Some False
   \<and> snd (loadTopics allResolve (1000 + REFRESH_INTERVAL) (2000 + REFRESH_INTERVAL) False
        (appWith (Some 1000) (Some (Parsed (snapshotAt (REFRESH_INTERVAL + 500)))))) = []
   \<and> snd (intervalTick allResolve (1000 + REFRESH_INTERVAL) (2000 + REFRESH_INTERVAL)
        (appWith (Some 1000) (Some (Parsed (snapshotAt (REFRESH_INTERVAL + 500)))))) \<noteq> []"
  by (simp add: intervalTick_def intervalCallback_def loadTopics_def restoreFromCache_def
        fetchCycle_def allResolve_def appWith_def snapshotAt_def REFRESH_INTERVAL_def Let_def)

section \<open>The fetch cycle, stage by stage\<close>

lemma fetchCycle_fail1:
  assumes "isl (f news) \<or> isl (f tech)"
  shows "fetchCycle f now w = (failed w, [Group [news, tech]])"
  using assms by (cases "f news"; cases "f tech") (simp_all add: fetchCycle_def)

lemma fetchCycle_fail2:
  assumes "\<not> isl (f news)" "\<not> isl (f tech)"
    and "isl (f music) \<or> isl (f billboard) \<or> isl (f hiphop)"
  shows "fetchCycle f now w =
           (failed (w\<lparr>topics := (topics w)(news := projr (f news), tech := projr (f tech))\<rparr>),
            [Group [news, tech], Wait 1500, Group [music, billboard, hiphop]])"
proof -
  from assms obtain n t where "f news = Inr n" "f tech = Inr t"
    by (metis sum.collapse(2))
  with assms(3) show ?thesis
    by (cases "f music"; cases "f billboard"; cases "f hiphop")
       (simp_all add: fetchCycle_def Let_def)
qed

lemma fetchCycle_fail3:
  assumes "\<not> isl (f news)" "\<not> isl (f tech)"
    and "\<not> isl (f music)" "\<not> isl (f billboard)" "\<not> isl (f hiphop)"
    and "isl (f memes) \<or> isl (f gaming)"
  shows "fetchCycle f now w =
           (failed (w\<lparr>topics := (topics w)(news := projr (f news), tech := projr (f tech),
                                  music := projr (f music), billboard := projr (f billboard),
                                  hiphop := projr (f hiphop))\<rparr>),
            [Group [news, tech], Wait 1500, Group [music, billboard, hiphop], Wait 1500,
             Group [memes, gaming]])"
proof -
  from assms obtain n t m b h where
    "f news = Inr n" "f tech = Inr t" "f music = Inr m" "f billboard = Inr b"
    "f hiphop = Inr h"
    by (metis sum.collapse(2))
  with assms(6) show ?thesis
    by (cases "f memes"; cases "f gaming") (simp_all add: fetchCycle_def Let_def)
qed

lemma fetchCycle_fail4:
  assumes "\<not> isl (f news)" "\<not> isl (f tech)"
    and "\<not> isl (f music)" "\<not> isl (f billboard)" "\<not> isl (f hiphop)"
    and "\<not> isl (f memes)" "\<not> isl (f gaming)"
    and "isl (f landscapes) \<or> isl (f wildlife)"
  shows "fetchCycle f now w =
           (failed (w\<lparr>topics := (topics w)(news := projr (f news), tech := projr (f tech),
                                  music := projr (f music), billboard := projr (f billboard),
                                  hiphop := projr (f hiphop), memes := projr (f memes),
                                  gaming := projr (f gaming))\<rparr>),
            [Group [news, tech], Wait 1500, Group [music, billboard, hiphop], Wait 1500,
             Group [memes, gaming], Wait 1500, Group [landscapes, wildlife]])"
proof -
  from assms obtain n t m b h me g where
    "f news = Inr n" "f tech = Inr t" "f music = Inr m" "f billboard = Inr b"
    "f hiphop = Inr h" "f memes = Inr me" "f gaming = Inr g"
    by (metis sum.collapse(2))
  with assms(8) show ?thesis
    by (cases "f landscapes"; cases "f wildlife") (simp_all add: fetchCycle_def Let_def)
qed

lemma fetchCycle_resolved:
  assumes "\<forall>c. \<not> isl (f c)"
  shows "fetchCycle f now w =
           (if accepts w (snapshotOf now f)
            then finished (w\<lparr>topics := (\<lambda>c. projr (f c)), lastUpdated := Some now,
                             cache := Some (Parsed (snapshotOf now f))\<rparr>)
            else failed (w\<lparr>topics := (\<lambda>c. projr (f c)), lastUpdated := Some now\<rparr>),
            [Group [news, tech], Wait 1500, Group [music, billboard, hiphop], Wait 1500,
             Group [memes, gaming], Wait 1500, Group [landscapes, wildlife],
             SetItem (snapshotOf now f) (accepts w (snapshotOf now f))])"
proof -
  from assms have r: "\<not> isl (f news)" "\<not> isl (f tech)"
    "\<not> isl (f music)" "\<not> isl (f billboard)" "\<not> isl (f hiphop)"
    "\<not> isl (f memes)" "\<not> isl (f gaming)" "\<not> isl (f landscapes)" "\<not> isl (f wildlife)"
    by simp_all
  then obtain n t m b h me g l wi where
    v: "f news = Inr n" "f tech = Inr t" "f music = Inr m" "f billboard = Inr b"
       "f hiphop = Inr h" "f memes = Inr me" "f gaming = Inr g" "f landscapes = Inr l"
       "f wildlife = Inr wi"
    by (metis sum.collapse(2))
  have t: "(topics w)(news := n, tech := t, music := m, billboard := b, hiphop := h,
             memes := me, gaming := g, landscapes := l, wildlife := wi)
           = (\<lambda>c. projr (f c))"
  proof (rule ext)
    fix c
    show "((topics w)(news := n, tech := t, music := m, billboard := b, hiphop := h,
             memes := me, gaming := g, landscapes := l, wildlife := wi)) c = projr (f c)"
      using v by (cases c) simp_all
  qed
  have d: "\<lparr>timestamp = Some now,
            data = Some [news \<mapsto> n, tech \<mapsto> t, music \<mapsto> m, billboard \<mapsto> b, hiphop \<mapsto> h,
                         memes \<mapsto> me, gaming \<mapsto> g, landscapes \<mapsto> l, wildlife \<mapsto> wi]\<rparr>
           = snapshotOf now f"
  proof -
    have "[news \<mapsto> n, tech \<mapsto> t, music \<mapsto> m, billboard \<mapsto> b, hiphop \<mapsto> h,
           memes \<mapsto> me, gaming \<mapsto> g, landscapes \<mapsto> l, wildlife \<mapsto> wi]
          = (\<lambda>c. Some (projr (f c)))"
    proof (rule ext)
      fix c
      show "[news \<mapsto> n, tech \<mapsto> t, music \<mapsto> m, billboard \<mapsto> b, hiphop \<mapsto> h,
             memes \<mapsto> me, gaming \<mapsto> g, landscapes \<mapsto> l, wildlife \<mapsto> wi] c
            = Some (projr (f c))"
        using v by (cases c) simp_all
    qed
    then show ?thesis by (simp add: snapshotOf_def)
  qed
  have "fetchCycle f now w =
     (let w5 = w\<lparr>topics := (topics w)(news := n, tech := t, music := m, billboard := b,
                                        hiphop := h, memes := me, gaming := g,
                                        landscapes := l, wildlife := wi),
                    lastUpdated := Some now\<rparr>;
          cacheData = \<lparr>timestamp = Some now,
            data = Some [news \<mapsto> n, tech \<mapsto> t, music \<mapsto> m, billboard \<mapsto> b, hiphop \<mapsto> h,
                         memes \<mapsto> me, gaming \<mapsto> g, landscapes \<mapsto> l, wildlife \<mapsto> wi]\<rparr>
      in (if accepts w5 cacheData then finished (w5\<lparr>cache := Some (Parsed cacheData)\<rparr>)
          else failed w5,
          [Group [news, tech], Wait 1500, Group [music, billboard, hiphop], Wait 1500,
           Group [memes, gaming], Wait 1500, Group [landscapes, wildlife],
           SetItem cacheData (accepts w5 cacheData)]))"
    using v by (simp add: fetchCycle_def Let_def)
  then show ?thesis
    unfolding t d by (simp add: Let_def)
qed

lemma completed_cases:
  "isl (f news) \<or> isl (f tech) \<Longrightarrow> completed f = []"
  "\<not> isl (f news) \<Longrightarrow> \<not> isl (f tech) \<Longrightarrow> isl (f music) \<or> isl (f billboard) \<or> isl (f hiphop)
     \<Longrightarrow> completed f = [[news, tech]]"
  "\<not> isl (f news) \<Longrightarrow> \<not> isl (f tech) \<Longrightarrow> \<not> isl (f music) \<Longrightarrow> \<not> isl (f billboard)
     \<Longrightarrow> \<not> isl (f hiphop) \<Longrightarrow> isl (f memes) \<or> isl (f gaming)
     \<Longrightarrow> completed f = [[news, tech], [music, billboard, hiphop]]"
  "\<not> isl (f news) \<Longrightarrow> \<not> isl (f tech) \<Longrightarrow> \<not> isl (f music) \<Longrightarrow> \<not> isl (f billboard)
     \<Longrightarrow> \<not> isl (f hiphop) \<Longrightarrow> \<not> isl (f memes) \<Longrightarrow> \<not> isl (f gaming)
     \<Longrightarrow> isl (f landscapes) \<or> isl (f wildlife)
     \<Longrightarrow> completed f = [[news, tech], [music, billboard, hiphop], [memes, gaming]]"
  by (auto simp: completed_def BATCHES_def)

lemma fetchCycle_rejected:
  assumes "\<exists>c. isl (f c)"
  shows "SetItem s b \<notin> set (snd (fetchCycle f now w))
         \<and> cache (fst (fetchCycle f now w)) = cache w"
proof -
  consider
      (g1) "isl (f news) \<or> isl (f tech)"
    | (g2) "\<not> isl (f news)" "\<not> isl (f tech)"
           "isl (f music) \<or> isl (f billboard) \<or> isl (f hiphop)"
    | (g3) "\<not> isl (f news)" "\<not> isl (f tech)"
           "\<not> isl (f music)" "\<not> isl (f billboard)" "\<not> isl (f hiphop)"
           "isl (f memes) \<or> isl (f gaming)"
    | (g4) "\<not> isl (f news)" "\<not> isl (f tech)"
           "\<not> isl (f music)" "\<not> isl (f billboard)" "\<not> isl (f hiphop)"
           "\<not> isl (f memes)" "\<not> isl (f gaming)"
           "isl (f landscapes) \<or> isl (f wildlife)"
    using assms by (metis SectionId.exhaust)
  then show ?thesis
  proof cases
    case g1 then show ?thesis by (simp add: fetchCycle_fail1 failed_def)
  next
    case g2 then show ?thesis by (simp add: fetchCycle_fail2 failed_def)
  next
    case g3 then show ?thesis by (simp add: fetchCycle_fail3 failed_def)
  next
    case g4 then show ?thesis by (simp add: fetchCycle_fail4 failed_def)
  qed
qed

lemma completed_resolved: "\<forall>c. \<not> isl (f c) \<Longrightarrow> completed f = BATCHES"
  by (simp add: completed_def BATCHES_def)

lemma in_BATCHES: "\<exists>x\<in>set BATCHES. c \<in> set x"
  by (cases c) (simp_all add: BATCHES_def)

lemma appFetchers_cycle:
  "fetchCycle (appFetchers ai clock) now w =
     (if accepts w (snapshotOf now (appFetchers ai clock))
      then finished (w\<lparr>topics := (\<lambda>c. projr (appFetchers ai clock c)),
                       lastUpdated := Some now,
                       cache := Some (Parsed (snapshotOf now (appFetchers ai clock)))\<rparr>)
      else failed (w\<lparr>topics := (\<lambda>c. projr (appFetchers ai clock c)),
                     lastUpdated := Some now\<rparr>),
      [Group [news, tech], Wait 1500, Group [music, billboard, hiphop], Wait 1500,
       Group [memes, gaming], Wait 1500, Group [landscapes, wildlife],
       SetItem (snapshotOf now (appFetchers ai clock))
               (accepts w (snapshotOf now (appFetchers ai clock)))])"
  by (rule fetchCycle_resolved) (simp add: appFetchers_resolves)

lemma appFetchers_allFail: "appFetchers allFail clock0 c = Inr (fallbackData c)"
proof -
  have "snd (generateContentWithRetry (allFail c) 0 3) = Inl \<lparr>status = Some 500, code = None\<rparr>"
    by (simp add: generateContentWithRetry_not_retryable allFail_def retryable_def)
  then show ?thesis by (rule appFetchers_fallback)
qed

lemma fallback_news_differs: "fallbackData news \<noteq> [topicA]"
  by (simp add: fallbackData_def fetchNewsAndPolitics_fallback_def)

section \<open>A fetch cycle that fails\<close>

text \<open>
  Claim C5, as the code has it. A fetch cycle throws when a fetcher rejects or when the
  write of the snapshot throws; with the fetchers of the application, which never
  reject, the write is the one stage that can throw, and a forced load then ends with
  the error banner exactly when the storage does not accept the snapshot. In either case
  the exception is caught: the error message is set, both flags are cleared and the
  persisted item is left as it was. The setters of each group run right after the group,
  so the cells of the groups that completed before the throw hold the new topics and only
  the cells of a failing group and of the groups after it keep what they showed. When it
  is the write that throws, all four groups have completed: all nine cells hold the new
  topics and \<^verbatim>\<open>lastUpdated\<close> is the new time stamp; after a rejection
  \<^verbatim>\<open>lastUpdated\<close> is unchanged.
\<close>

theorem fetchCycle_failure:
  assumes "(\<exists>c. isl (f c)) \<or> \<not> accepts w (snapshotOf now f)"
  shows "error (fst (fetchCycle f now w))
           = Some ''Failed to load trending topics. Please check your connection.''
         \<and> loading (fst (fetchCycle f now w)) = False
         \<and> refreshing (fst (fetchCycle f now w)) = False
         \<and> cache (fst (fetchCycle f now w)) = cache w
         \<and> lastUpdated (fst (fetchCycle f now w))
             = (if \<exists>c. isl (f c) then lastUpdated w else Some now)
         \<and> (\<forall>c. topics (fst (fetchCycle f now w)) c =
                  (if c \<in> set (concat (completed f)) then projr (f c) else topics w c))
         \<and> (if \<exists>c. isl (f c) then completed f \<noteq> BATCHES
             else \<forall>c. topics (fst (fetchCycle f now w)) c = projr (f c))
         \<and> error (fst (loadTopics (appFetchers ai clock) now0 now True w))
             = (if accepts w (snapshotOf now (appFetchers ai clock)) then None
                else Some ''Failed to load trending topics. Please check your connection.'')"
proof -
  have shipped: "error (fst (loadTopics (appFetchers ai clock) now0 now True w))
             = (if accepts w (snapshotOf now (appFetchers ai clock)) then None
                else Some ''Failed to load trending topics. Please check your connection.'')"
    by (simp add: loadTopics_def appFetchers_cycle finished_def failed_def)
  show ?thesis
  proof (cases "\<exists>c. isl (f c)")
    case False
    then have r: "\<forall>c. \<not> isl (f c)" by simp
    with assms have n: "\<not> accepts w (snapshotOf now f)" by blast
    show ?thesis
      using False n shipped
      by (simp add: fetchCycle_resolved [OF r] completed_resolved [OF r] in_BATCHES failed_def)
  next
    case True
    then consider
        (g1) "isl (f news) \<or> isl (f tech)"
      | (g2) "\<not> isl (f news)" "\<not> isl (f tech)"
             "isl (f music) \<or> isl (f billboard) \<or> isl (f hiphop)"
      | (g3) "\<not> isl (f news)" "\<not> isl (f tech)"
             "\<not> isl (f music)" "\<not> isl (f billboard)" "\<not> isl (f hiphop)"
             "isl (f memes) \<or> isl (f gaming)"
      | (g4) "\<not> isl (f news)" "\<not> isl (f tech)"
             "\<not> isl (f music)" "\<not> isl (f billboard)" "\<not> isl (f hiphop)"
             "\<not> isl (f memes)" "\<not> isl (f gaming)"
             "isl (f landscapes) \<or> isl (f wildlife)"
      by (metis SectionId.exhaust)
    then show ?thesis
    proof cases
      case g1
      have t: "\<forall>c. topics (failed w) c = topics w c"
        by (simp add: failed_def)
      show ?thesis
        using t True shipped
        by (simp add: fetchCycle_fail1 [OF g1] completed_cases(1) [OF g1] failed_def BATCHES_def)
    next
      case g2
      have "\<And>c. topics (fst (fetchCycle f now w)) c =
                    (if c \<in> set (concat (completed f)) then projr (f c) else topics w c)"
        subgoal for c
          by (cases c) (simp_all add: fetchCycle_fail2 [OF g2] completed_cases(2) [OF g2] failed_def)
        done
      then show ?thesis
        using True shipped
        by (simp add: fetchCycle_fail2 [OF g2] completed_cases(2) [OF g2] failed_def BATCHES_def)
    next
      case g3
      have "\<And>c. topics (fst (fetchCycle f now w)) c =
                    (if c \<in> set (concat (completed f)) then projr (f c) else topics w c)"
        subgoal for c
          by (cases c) (simp_all add: fetchCycle_fail3 [OF g3] completed_cases(3) [OF g3] failed_def)
        done
      then show ?thesis
        using True shipped
        by (simp add: fetchCycle_fail3 [OF g3] completed_cases(3) [OF g3] failed_def BATCHES_def)
    next
      case g4
      have "\<And>c. topics (fst (fetchCycle f now w)) c =
                    (if c \<in> set (concat (completed f)) then projr (f c) else topics w c)"
        subgoal for c
          by (cases c) (simp_all add: fetchCycle_fail4 [OF g4] completed_cases(4) [OF g4] failed_def)
        done
      then show ?thesis
        using True shipped
        by (simp add: fetchCycle_fail4 [OF g4] completed_cases(4) [OF g4] failed_def BATCHES_def)
    qed
  qed
qed

theorem fetchCycle_failure_witness:
  "(\<exists>c. isl (musicRejects c))
   \<and> error (fst (fetchCycle musicRejects 5 (appWith None None)))
       = Some ''Failed to load trending topics. Please check your connection.''
   \<and> cache (fst (fetchCycle musicRejects 5 (appWith None None))) = None
   \<and> lastUpdated (fst (fetchCycle musicRejects 5 (appWith None None))) = None
   \<and> topics (fst (fetchCycle musicRejects 5 (appWith None None))) news = [topicB]
   \<and> topics (fst (fetchCycle musicRejects 5 (appWith None None))) music = [topicA]
   \<and> topics (fst (fetchCycle musicRejects 5 (appWith None None))) wildlife = [topicA]
   \<and> \<not> accepts (appFull None None) (snapshotOf 5 (appFetchers allFail clock0))
   \<and> error (fst (fetchCycle (appFetchers allFail clock0) 5 (appFull None None)))
       = Some ''Failed to load trending topics. Please check your connection.''
   \<and> cache (fst (fetchCycle (appFetchers allFail clock0) 5 (appFull None None))) = None
   \<and> lastUpdated (fst (fetchCycle (appFetchers allFail clock0) 5 (appFull None None))) = Some 5
   \<and> topics (fst (fetchCycle (appFetchers allFail clock0) 5 (appFull None None))) news
       = fetchNewsAndPolitics_fallback
   \<and> topics (fst (fetchCycle (appFetchers allFail clock0) 5 (appFull None None))) wildlife
       = fetchWildlifeTrends_fallback"
proof -
  have m: "\<exists>c. isl (musicRejects c)"
    by (rule exI [of _ music]) (simp add: musicRejects_def)
  have c: "completed musicRejects = [[news, tech]]"
    by (simp add: completed_def BATCHES_def musicRejects_def)
  have p: "projr (musicRejects news) = [topicB]"
    by (simp add: musicRejects_def)
  have n: "\<not> accepts (appFull None None) (snapshotOf 5 (appFetchers allFail clock0))"
    by (simp add: appFull_def)
  have r: "\<not> (\<exists>c. isl (appFetchers allFail clock0 c))"
    by (simp add: appFetchers_resolves)
  note T = fetchCycle_failure [of musicRejects "appWith None None" 5 allFail clock0 0,
             OF disjI1, OF m]
  note U = fetchCycle_failure [of "appFetchers allFail clock0" "appFull None None" 5
             allFail clock0 0, OF disjI2, OF n]
  have t1: "error (fst (fetchCycle musicRejects 5 (appWith None None)))
       = Some ''Failed to load trending topics. Please check your connection.''"
    using T by blast
  have t2: "cache (fst (fetchCycle musicRejects 5 (appWith None None))) = None"
    using T by (simp add: appWith_def)
  have t3: "lastUpdated (fst (fetchCycle musicRejects 5 (appWith None None))) = None"
    using T [THEN conjunct2, THEN conjunct2, THEN conjunct2, THEN conjunct2, THEN conjunct1] m
    by (simp add: appWith_def)
  have tt: "\<forall>c. topics (fst (fetchCycle musicRejects 5 (appWith None None))) c =
              (if c \<in> set (concat (completed musicRejects)) then projr (musicRejects c)
               else topics (appWith None None) c)"
    using T by blast
  have t4: "topics (fst (fetchCycle musicRejects 5 (appWith None None))) news = [topicB]"
    using tt [rule_format, of news] by (simp add: c p)
  have t5: "topics (fst (fetchCycle musicRejects 5 (appWith None None))) music = [topicA]"
    using tt [rule_format, of music] by (simp add: c appWith_def)
  have t6: "topics (fst (fetchCycle musicRejects 5 (appWith None None))) wildlife = [topicA]"
    using tt [rule_format, of wildlife] by (simp add: c appWith_def)
  have u1: "error (fst (fetchCycle (appFetchers allFail clock0) 5 (appFull None None)))
       = Some ''Failed to load trending topics. Please check your connection.''"
    using U by blast
  have u2: "cache (fst (fetchCycle (appFetchers allFail clock0) 5 (appFull None None))) = None"
    using U by (simp add: appFull_def)
  have u3: "lastUpdated (fst (fetchCycle (appFetchers allFail clock0) 5 (appFull None None)))
              = Some 5"
    using U [THEN conjunct2, THEN conjunct2, THEN conjunct2, THEN conjunct2, THEN conjunct1] r
    by simp
  have uu: "\<forall>c. topics (fst (fetchCycle (appFetchers allFail clock0) 5 (appFull None None))) c
              = projr (appFetchers allFail clock0 c)"
    using U [THEN conjunct2, THEN conjunct2, THEN conjunct2, THEN conjunct2, THEN conjunct2,
             THEN conjunct2, THEN conjunct1] r
    by simp
  have u4: "topics (fst (fetchCycle (appFetchers allFail clock0) 5 (appFull None None))) news
       = fetchNewsAndPolitics_fallback"
    using uu [rule_format, of news] by (simp add: appFetchers_allFail fallbackData_def)
  have u5: "topics (fst (fetchCycle (appFetchers allFail clock0) 5 (appFull None None))) wildlife
       = fetchWildlifeTrends_fallback"
    using uu [rule_format, of wildlife] by (simp add: appFetchers_allFail fallbackData_def)
  show ?thesis
    using m t1 t2 t3 t4 t5 t6 n u1 u2 u3 u4 u5 by (intro conjI)
qed

text \<open>
  Claim C5 as stated fails with the fetchers of the application: when the storage takes
  no write, the cycle throws at its last stage and is caught and reported, yet the news
  cell shows the newly fetched list and no longer what it showed before, and
  \<^verbatim>\<open>lastUpdated\<close> has changed.
\<close>

theorem fetchCycle_overwrite_counterexample:
  "\<not> accepts (appFull None None) (snapshotOf 5 (appFetchers allFail clock0))
   \<and> error (fst (loadTopics (appFetchers allFail clock0) 0 5 True (appFull None None)))
       = Some ''Failed to load trending topics. Please check your connection.''
   \<and> topics (appFull None None) news = [topicA]
   \<and> topics (fst (loadTopics (appFetchers allFail clock0) 0 5 True (appFull None None))) news
       = fetchNewsAndPolitics_fallback
   \<and> topics (fst (loadTopics (appFetchers allFail clock0) 0 5 True (appFull None None))) news
       \<noteq> topics (appFull None None) news
   \<and> lastUpdated (appFull None None) = None
   \<and> lastUpdated (fst (loadTopics (appFetchers allFail clock0) 0 5 True (appFull None None)))
       = Some 5"
proof -
  have a: "accepts (appFull None None\<lparr>error := None\<rparr>) = (\<lambda>item. False)"
    by (simp add: appFull_def)
  have l: "loadTopics (appFetchers allFail clock0) 0 5 True (appFull None None)
             = (failed (appFull None None\<lparr>error := None,
                          topics := (\<lambda>c. projr (appFetchers allFail clock0 c)),
                          lastUpdated := Some 5\<rparr>),
                [Group [news, tech], Wait 1500, Group [music, billboard, hiphop], Wait 1500,
                 Group [memes, gaming], Wait 1500, Group [landscapes, wildlife],
                 SetItem (snapshotOf 5 (appFetchers allFail clock0)) False])"
    by (simp add: loadTopics_def appFetchers_cycle a)
  have f: "fetchNewsAndPolitics_fallback \<noteq> [topicA]"
    using fallback_news_differs by (simp add: fallbackData_def)
  show ?thesis
    using f
    by (simp only: l fst_conv)
       (simp add: failed_def appFetchers_allFail appFull_def fallbackData_def)
qed

section \<open>Batching\<close>

text \<open>
  Claim C6. With the fetchers of the application, whatever the service answers and
  whether or not the storage accepts the snapshot, a fetch cycle issues the nine requests
  in four groups, news and tech, then music, billboard and hiphop, then memes and gaming,
  then landscapes and wildlife, with a wait of 1500 ms before the second, third and
  fourth group, and then calls \<^verbatim>\<open>setItem\<close> with the snapshot. Every cell receives the
  result of its own fetcher, which depends on the answers to its own request only; a
  category whose request fails shows its fallback list and blocks no other category. No
  failed request raises the error banner: the banner is as it was when the write
  succeeds, and is set only when the write throws.
\<close>

theorem fetchCycle_batches:
  "snd (fetchCycle (appFetchers ai clock) now w)
     = [Group [news, tech], Wait 1500, Group [music, billboard, hiphop], Wait 1500,
        Group [memes, gaming], Wait 1500, Group [landscapes, wildlife],
        SetItem \<lparr>timestamp = Some now,
                 data = Some (\<lambda>c. Some (projr (appFetchers ai clock c)))\<rparr>
                (accepts w \<lparr>timestamp = Some now,
                            data = Some (\<lambda>c. Some (projr (appFetchers ai clock c)))\<rparr>)]
   \<and> (\<forall>c. topics (fst (fetchCycle (appFetchers ai clock) now w)) c
            = projr (appFetchers ai clock c))
   \<and> (\<forall>c. appFetchers ai clock c
            = snd (fetchTopicsByCategory (ai c) (clock c) (categoryPrefixOf c) (fallbackData c)))
   \<and> (\<forall>c e. snd (generateContentWithRetry (ai c) 0 3) = Inl e
            \<longrightarrow> topics (fst (fetchCycle (appFetchers ai clock) now w)) c = fallbackData c)
   \<and> error (fst (fetchCycle (appFetchers ai clock) now w))
       = (if accepts w \<lparr>timestamp = Some now,
                         data = Some (\<lambda>c. Some (projr (appFetchers ai clock c)))\<rparr>
          then error w
          else Some ''Failed to load trending topics. Please check your connection.'')"
proof -
  have s: "\<lparr>timestamp = Some now, data = Some (\<lambda>c. Some (projr (appFetchers ai clock c)))\<rparr>
             = snapshotOf now (appFetchers ai clock)"
    by (simp add: snapshotOf_def)
  have t: "\<forall>c. topics (fst (fetchCycle (appFetchers ai clock) now w)) c
            = projr (appFetchers ai clock c)"
    by (simp add: appFetchers_cycle finished_def failed_def)
  have "\<forall>c e. snd (generateContentWithRetry (ai c) 0 3) = Inl e
            \<longrightarrow> topics (fst (fetchCycle (appFetchers ai clock) now w)) c = fallbackData c"
    using t by (simp add: appFetchers_fallback)
  then show ?thesis
    using t appFetchers_unfold [of ai clock]
    unfolding s
    by (simp add: appFetchers_cycle finished_def failed_def)
qed

theorem fetchCycle_batches_witness:
  "snd (generateContentWithRetry (newsFails news) 0 3) = Inl \<lparr>status = Some 500, code = None\<rparr>
   \<and> topics (fst (fetchCycle (appFetchers newsFails clock0) 7 (appWith None None))) news
       = fetchNewsAndPolitics_fallback
   \<and> topics (fst (fetchCycle (appFetchers newsFails clock0) 7 (appWith None None))) tech
       = [\<lparr>id_t = ''tech-0-0'', title = ''T'', category = ''C'', description = ''D'',
            imageUrl = Some ''https://picsum.photos/seed/Ttech/600/400''\<rparr>]
   \<and> error (fst (fetchCycle (appFetchers newsFails clock0) 7 (appWith None None))) = None
   \<and> topics (fst (fetchCycle (appFetchers newsFails clock0) 7 (appFull None None))) news
       = fetchNewsAndPolitics_fallback
   \<and> error (fst (fetchCycle (appFetchers newsFails clock0) 7 (appFull None None)))
       = Some ''Failed to load trending topics. Please check your connection.''"
proof -
  have g: "snd (generateContentWithRetry (newsFails news) 0 3)
             = Inl \<lparr>status = Some 500, code = None\<rparr>"
    by (simp add: generateContentWithRetry.simps newsFails_def)
  have g': "snd (generateContentWithRetry (newsFails tech) 0 3)
             = Inr \<lparr>text_r = Some ''TOPIC_START|T|C|D|TOPIC_END''\<rparr>"
    by (simp add: generateContentWithRetry.simps newsFails_def)
  have m: "regex_match ''TOPIC_START|T|C|D|TOPIC_END'' = Some (''T'', ''C'', ''D'')"
    by (simp add: regex_match.simps regex_at_def lit_def isLineTerminator_def)
  have p: "projr (appFetchers newsFails clock0 tech)
       = [\<lparr>id_t = ''tech-0-0'', title = ''T'', category = ''C'', description = ''D'',
            imageUrl = Some ''https://picsum.photos/seed/Ttech/600/400''\<rparr>]"
    by (simp add: appFetchers_unfold fetchTopicsByCategory_result g' m categoryPrefixOf_def
          clock0_def show_int_def show_nat.simps digit_char_def trim_def isWhiteSpace_def
          isLineTerminator_def)
  note T = fetchCycle_batches [of newsFails clock0 7 "appWith None None"]
  note U = fetchCycle_batches [of newsFails clock0 7 "appFull None None"]
  have t: "topics (fst (fetchCycle (appFetchers newsFails clock0) 7 (appWith None None))) tech
             = projr (appFetchers newsFails clock0 tech)"
    using T [THEN conjunct2, THEN conjunct1] by (rule spec)
  have n: "topics (fst (fetchCycle (appFetchers newsFails clock0) 7 (appWith None None))) news
             = fallbackData news"
    using T [THEN conjunct2, THEN conjunct2, THEN conjunct2, THEN conjunct1] g by blast
  have e: "error (fst (fetchCycle (appFetchers newsFails clock0) 7 (appWith None None))) = None"
    using T [THEN conjunct2, THEN conjunct2, THEN conjunct2, THEN conjunct2]
    by (simp add: appWith_def)
  have n': "topics (fst (fetchCycle (appFetchers newsFails clock0) 7 (appFull None None))) news
             = fallbackData news"
    using U [THEN conjunct2, THEN conjunct2, THEN conjunct2, THEN conjunct1] g by blast
  have e': "error (fst (fetchCycle (appFetchers newsFails clock0) 7 (appFull None None)))
             = Some ''Failed to load trending topics. Please check your connection.''"
    using U [THEN conjunct2, THEN conjunct2, THEN conjunct2, THEN conjunct2]
    by (simp add: appFull_def)
  have f: "fallbackData news = fetchNewsAndPolitics_fallback"
    by (simp add: fallbackData_def)
  show ?thesis
    using g n [unfolded f] t [unfolded p] e n' [unfolded f] e' by (intro conjI)
qed

section \<open>Saved collection\<close>

lemma list_ex_title:
  "list_ex (\<lambda>x. title x = title t) prev \<longleftrightarrow> title t \<in> title ` set prev"
  by (induction prev) auto

lemma toggleSaveTopic_unfold:
  "toggleSaveTopic t prev =
     (if title t \<in> title ` set prev then filter (\<lambda>x. title x \<noteq> title t) prev else t # prev)"
  by (simp add: toggleSaveTopic_def list_ex_title)

lemma filter_title_absent:
  "title t \<notin> title ` set prev \<Longrightarrow> filter (\<lambda>x. title x \<noteq> title t) prev = prev"
  by (induction prev) auto

lemma title_notin_filter:
  "title t \<notin> title ` set (filter (\<lambda>x. title x \<noteq> title t) prev)"
  by auto

lemma toggleSaveTopic_twice:
  "toggleSaveTopic t (toggleSaveTopic t prev) =
     (if title t \<in> title ` set prev then t # filter (\<lambda>x. title x \<noteq> title t) prev else prev)"
proof (cases "title t \<in> title ` set prev")
  case True
  have "toggleSaveTopic t (filter (\<lambda>x. title x \<noteq> title t) prev)
          = t # filter (\<lambda>x. title x \<noteq> title t) prev"
    using title_notin_filter [of t prev] by (simp only: toggleSaveTopic_unfold if_False)
  with True show ?thesis by (simp add: toggleSaveTopic_unfold [of t prev])
next
  case False
  then have "toggleSaveTopic t prev = t # prev"
    by (simp add: toggleSaveTopic_unfold)
  moreover have "toggleSaveTopic t (t # prev) = filter (\<lambda>x. title x \<noteq> title t) prev"
    by (simp add: toggleSaveTopic_unfold)
  ultimately show ?thesis
    using False by (simp add: filter_title_absent)
qed

lemma distinct_titles_filter:
  "distinct (map title prev) \<Longrightarrow> distinct (map title (filter P prev))"
  by (induction prev) auto

text \<open>
  Claim C7, as the code has it. \<^verbatim>\<open>toggleSaveTopic\<close> removes every entry with the topic's
  title when one is present and prepends the topic otherwise; it keeps titles distinct.
  The topic counts as saved afterwards exactly when it did not before.
  Two invocations with the same topic restore the list exactly when the title was absent
  at the start. When it was present, they restore the set of saved titles, with the
  topic passed in now at the front and the former entry of that title gone from its old
  position.
\<close>

theorem toggleSaveTopic_toggle:
  "toggleSaveTopic t prev =
     (if title t \<in> title ` set prev then filter (\<lambda>x. title x \<noteq> title t) prev else t # prev)
   \<and> (distinct (map title prev) \<longrightarrow> distinct (map title (toggleSaveTopic t prev)))
   \<and> (isTopicSaved (toggleSaveTopic t prev) t \<longleftrightarrow> \<not> isTopicSaved prev t)
   \<and> toggleSaveTopic t (toggleSaveTopic t prev) =
       (if title t \<in> title ` set prev then t # filter (\<lambda>x. title x \<noteq> title t) prev else prev)
   \<and> title ` set (toggleSaveTopic t (toggleSaveTopic t prev)) = title ` set prev"
proof -
  have d: "distinct (map title prev) \<longrightarrow> distinct (map title (toggleSaveTopic t prev))"
    by (auto simp: toggleSaveTopic_unfold distinct_titles_filter)
  have s: "title ` set (toggleSaveTopic t (toggleSaveTopic t prev)) = title ` set prev"
    by (auto simp: toggleSaveTopic_twice)
  have i: "isTopicSaved (toggleSaveTopic t prev) t \<longleftrightarrow> \<not> isTopicSaved prev t"
    by (auto simp: isTopicSaved_def list_ex_title toggleSaveTopic_unfold)
  show ?thesis
    using d s i toggleSaveTopic_unfold [of t prev] toggleSaveTopic_twice [of t prev] by blast
qed

theorem toggleSaveTopic_toggle_witness:
  "distinct (map title [topicA, topicB])
   \<and> toggleSaveTopic topicB [topicA, topicB] = [topicA]
   \<and> distinct (map title (toggleSaveTopic topicB [topicA, topicB]))
   \<and> toggleSaveTopic topicB (toggleSaveTopic topicB [topicA]) = [topicA]"
  using toggleSaveTopic_toggle [of topicB "[topicA, topicB]"]
        toggleSaveTopic_toggle [of topicB "[topicA]"]
  by (simp add: toggleSaveTopic_def topicA_def topicB_def)

text \<open>
  Claim C7 as stated fails where the title is already saved and is not at the front:
  two invocations move it to the front instead of restoring the former order.
\<close>

theorem toggleSaveTopic_twice_counterexample:
  "distinct (map title [topicA, topicB])
   \<and> toggleSaveTopic topicB (toggleSaveTopic topicB [topicA, topicB]) = [topicB, topicA]
   \<and> toggleSaveTopic topicB (toggleSaveTopic topicB [topicA, topicB]) \<noteq> [topicA, topicB]"
  by (simp add: toggleSaveTopic_def topicA_def topicB_def)

section \<open>Preferences\<close>

lemma defaults_apply:
  "defaults k = (if k \<in> set SECTIONS_CONFIG then Some True else None)"
  by (simp add: defaults_def SECTIONS_CONFIG_def)

text \<open>
  Claim C8, as the code has it. Loading a preferences blob that parses gives the blob's
  own value for every key of the blob, known or not, and \<open>True\<close> for every known
  category key missing from the blob: the loaded map has the known keys and all keys of
  the blob. A blob that is absent or does not parse gives the defaults.
\<close>

theorem initVisibleSections_merge:
  "(k \<in> set SECTIONS_CONFIG \<and> k \<notin> dom p \<longrightarrow> initVisibleSections (Some (Parsed p)) k = Some True)
   \<and> (k \<in> dom p \<longrightarrow> initVisibleSections (Some (Parsed p)) k = p k)
   \<and> dom (initVisibleSections (Some (Parsed p))) = set SECTIONS_CONFIG \<union> dom p
   \<and> dom (initVisibleSections (Some Unparseable)) = set SECTIONS_CONFIG
   \<and> dom (initVisibleSections None) = set SECTIONS_CONFIG"
proof -
  have d: "dom defaults = set SECTIONS_CONFIG"
    by (auto simp: defaults_apply dom_def)
  have "dom (defaults ++ p) = set SECTIONS_CONFIG \<union> dom p"
    using d by auto
  then show ?thesis
    using d by (auto simp: initVisibleSections_def map_add_def defaults_apply split: option.splits)
qed

theorem initVisibleSections_merge_witness:
  "''tech'' \<in> set SECTIONS_CONFIG \<and> ''tech'' \<notin> dom [''foo'' \<mapsto> False]
   \<and> ''foo'' \<in> dom [''foo'' \<mapsto> False]
   \<and> initVisibleSections (Some (Parsed [''foo'' \<mapsto> False])) ''tech'' = Some True
   \<and> initVisibleSections (Some (Parsed [''foo'' \<mapsto> False])) ''foo'' = Some False"
  using initVisibleSections_merge [of "''tech''" "[''foo'' \<mapsto> False]"]
        initVisibleSections_merge [of "''foo''" "[''foo'' \<mapsto> False]"]
  by (simp add: SECTIONS_CONFIG_def)

text \<open>
  Claim C8 as stated fails: the unknown key \<open>foo\<close> of the blob is a key of the loaded
  preferences.
\<close>

theorem initVisibleSections_unknown_key_counterexample:
  "''foo'' \<notin> set SECTIONS_CONFIG
   \<and> initVisibleSections (Some (Parsed [''foo'' \<mapsto> False])) ''foo'' = Some False
   \<and> ''foo'' \<in> dom (initVisibleSections (Some (Parsed [''foo'' \<mapsto> False])))"
  by (simp add: initVisibleSections_def SECTIONS_CONFIG_def)

section \<open>Persisting the snapshot\<close>

text \<open>
  Claim C9, as the code has it. A fetch cycle stores a new snapshot exactly when all four
  groups complete, that is when no fetcher rejects, and the storage accepts the write.
  The snapshot stored holds the time stamp read after the last group and the result of
  every one of the nine categories, and \<^verbatim>\<open>lastUpdated\<close> gets the same time stamp. In
  every other case the persisted item is left as it was: it is never partially updated.
  So \<^verbatim>\<open>loadTopics(false)\<close> over a stale snapshot, when no fetcher rejects and the write
  succeeds, overwrites the snapshot with one stamped with the current time. With the
  fetchers of the application, a cycle in which the first call of every category fails
  with an error that is not retried still completes its four groups with the nine
  fallback lists, and persists them, without error banner, when the write succeeds.
\<close>

theorem fetchCycle_persist:
  "((\<exists>s. SetItem s True \<in> set (snd (fetchCycle f now w)))
      \<longleftrightarrow> (\<forall>c. \<not> isl (f c)) \<and> accepts w (snapshotOf now f))
   \<and> snapshotOf now f = \<lparr>timestamp = Some now, data = Some (\<lambda>c. Some (projr (f c)))\<rparr>
   \<and> ((\<forall>c. \<not> isl (f c)) \<and> accepts w (snapshotOf now f) \<longrightarrow>
        cache (fst (fetchCycle f now w)) = Some (Parsed (snapshotOf now f))
        \<and> last (snd (fetchCycle f now w)) = SetItem (snapshotOf now f) True
        \<and> lastUpdated (fst (fetchCycle f now w)) = Some now)
   \<and> (\<not> ((\<forall>c. \<not> isl (f c)) \<and> accepts w (snapshotOf now f)) \<longrightarrow>
        cache (fst (fetchCycle f now w)) = cache w)
   \<and> (\<not> fresh_snapshot now0 (cache w) \<and> (\<forall>c. \<not> isl (f c)) \<and> accepts w (snapshotOf now f)
        \<longrightarrow> cache (fst (loadTopics f now0 now False w)) = Some (Parsed (snapshotOf now f)))
   \<and> ((\<forall>c. \<exists>e. ai c 0 = Inl e \<and> \<not> retryable e) \<longrightarrow>
        snapshotOf now (appFetchers ai clock)
          = \<lparr>timestamp = Some now, data = Some (\<lambda>c. Some (fallbackData c))\<rparr>
        \<and> (\<forall>c. topics (fst (fetchCycle (appFetchers ai clock) now w)) c = fallbackData c)
        \<and> take 7 (snd (fetchCycle (appFetchers ai clock) now w))
            = [Group [news, tech], Wait 1500, Group [music, billboard, hiphop], Wait 1500,
               Group [memes, gaming], Wait 1500, Group [landscapes, wildlife]]
        \<and> (accepts w (snapshotOf now (appFetchers ai clock)) \<longrightarrow>
             cache (fst (fetchCycle (appFetchers ai clock) now w))
               = Some (Parsed \<lparr>timestamp = Some now,
                                data = Some (\<lambda>c. Some (fallbackData c))\<rparr>)
             \<and> error (fst (fetchCycle (appFetchers ai clock) now w)) = error w))"
proof -
  have a: "(\<exists>s. SetItem s True \<in> set (snd (fetchCycle f now w)))
      \<longleftrightarrow> (\<forall>c. \<not> isl (f c)) \<and> accepts w (snapshotOf now f)"
  proof (cases "\<forall>c. \<not> isl (f c)")
    case True
    then show ?thesis by (auto simp: fetchCycle_resolved)
  next
    case False
    then have "\<exists>c. isl (f c)" by simp
    then show ?thesis using False fetchCycle_rejected [of f _ True now w] by blast
  qed
  have s: "snapshotOf now f = \<lparr>timestamp = Some now, data = Some (\<lambda>c. Some (projr (f c)))\<rparr>"
    by (simp add: snapshotOf_def)
  have b: "(\<forall>c. \<not> isl (f c)) \<and> accepts w (snapshotOf now f) \<longrightarrow>
        cache (fst (fetchCycle f now w)) = Some (Parsed (snapshotOf now f))
        \<and> last (snd (fetchCycle f now w)) = SetItem (snapshotOf now f) True
        \<and> lastUpdated (fst (fetchCycle f now w)) = Some now"
    by (simp add: fetchCycle_resolved finished_def)
  have c: "\<not> ((\<forall>c. \<not> isl (f c)) \<and> accepts w (snapshotOf now f)) \<longrightarrow>
        cache (fst (fetchCycle f now w)) = cache w"
  proof (cases "\<forall>c. \<not> isl (f c)")
    case True
    then show ?thesis by (simp add: fetchCycle_resolved failed_def)
  next
    case False
    then have "\<exists>c. isl (f c)" by simp
    then show ?thesis using fetchCycle_rejected [of f _ True now w] by blast
  qed
  have l: "\<not> fresh_snapshot now0 (cache w) \<and> (\<forall>c. \<not> isl (f c)) \<and> accepts w (snapshotOf now f)
        \<longrightarrow> cache (fst (loadTopics f now0 now False w)) = Some (Parsed (snapshotOf now f))"
    by (simp add: loadTopics_miss fetchCycle_resolved finished_def)
  have d: "(\<forall>c. \<exists>e. ai c 0 = Inl e \<and> \<not> retryable e) \<longrightarrow>
        snapshotOf now (appFetchers ai clock)
          = \<lparr>timestamp = Some now, data = Some (\<lambda>c. Some (fallbackData c))\<rparr>
        \<and> (\<forall>c. topics (fst (fetchCycle (appFetchers ai clock) now w)) c = fallbackData c)
        \<and> take 7 (snd (fetchCycle (appFetchers ai clock) now w))
            = [Group [news, tech], Wait 1500, Group [music, billboard, hiphop], Wait 1500,
               Group [memes, gaming], Wait 1500, Group [landscapes, wildlife]]
        \<and> (accepts w (snapshotOf now (appFetchers ai clock)) \<longrightarrow>
             cache (fst (fetchCycle (appFetchers ai clock) now w))
               = Some (Parsed \<lparr>timestamp = Some now,
                                data = Some (\<lambda>c. Some (fallbackData c))\<rparr>)
             \<and> error (fst (fetchCycle (appFetchers ai clock) now w)) = error w)"
  proof
    assume h: "\<forall>c. \<exists>e. ai c 0 = Inl e \<and> \<not> retryable e"
    have fb: "appFetchers ai clock c = Inr (fallbackData c)" for c
    proof -
      from h obtain e where "ai c 0 = Inl e" "\<not> retryable e" by blast
      then have "snd (generateContentWithRetry (ai c) 0 3) = Inl e"
        by (simp add: generateContentWithRetry_not_retryable)
      then show ?thesis by (rule appFetchers_fallback)
    qed
    have p: "snapshotOf now (appFetchers ai clock)
          = \<lparr>timestamp = Some now, data = Some (\<lambda>c. Some (fallbackData c))\<rparr>"
      by (simp add: snapshotOf_def fb)
    have t: "\<forall>c. topics (fst (fetchCycle (appFetchers ai clock) now w)) c = fallbackData c"
      by (simp add: appFetchers_cycle finished_def failed_def fb)
    have k: "take 7 (snd (fetchCycle (appFetchers ai clock) now w))
            = [Group [news, tech], Wait 1500, Group [music, billboard, hiphop], Wait 1500,
               Group [memes, gaming], Wait 1500, Group [landscapes, wildlife]]"
      by (simp add: appFetchers_cycle)
    have q: "accepts w (snapshotOf now (appFetchers ai clock)) \<longrightarrow>
             cache (fst (fetchCycle (appFetchers ai clock) now w))
               = Some (Parsed \<lparr>timestamp = Some now,
                                data = Some (\<lambda>c. Some (fallbackData c))\<rparr>)
             \<and> error (fst (fetchCycle (appFetchers ai clock) now w)) = error w"
      using p by (simp add: appFetchers_cycle finished_def)
    show "snapshotOf now (appFetchers ai clock)
          = \<lparr>timestamp = Some now, data = Some (\<lambda>c. Some (fallbackData c))\<rparr>
        \<and> (\<forall>c. topics (fst (fetchCycle (appFetchers ai clock) now w)) c = fallbackData c)
        \<and> take 7 (snd (fetchCycle (appFetchers ai clock) now w))
            = [Group [news, tech], Wait 1500, Group [music, billboard, hiphop], Wait 1500,
               Group [memes, gaming], Wait 1500, Group [landscapes, wildlife]]
        \<and> (accepts w (snapshotOf now (appFetchers ai clock)) \<longrightarrow>
             cache (fst (fetchCycle (appFetchers ai clock) now w))
               = Some (Parsed \<lparr>timestamp = Some now,
                                data = Some (\<lambda>c. Some (fallbackData c))\<rparr>)
             \<and> error (fst (fetchCycle (appFetchers ai clock) now w)) = error w)"
      using p t k q by (intro conjI)
  qed
  show ?thesis using a s b c l d by (intro conjI)
qed

theorem fetchCycle_persist_witness:
  "(\<forall>c. \<not> isl (allResolve c))
   \<and> accepts (appWith None None) (snapshotOf 7 allResolve)
   \<and> cache (fst (fetchCycle allResolve 7 (appWith None None)))
       = Some (Parsed \<lparr>timestamp = Some 7, data = Some (\<lambda>c. Some [topicB])\<rparr>)
   \<and> (\<exists>c. isl (musicRejects c))
   \<and> cache (fst (fetchCycle musicRejects 7 (appWith None (Some Unparseable)))) = Some Unparseable
   \<and> \<not> accepts (appFull None (Some Unparseable)) (snapshotOf 7 allResolve)
   \<and> cache (fst (fetchCycle allResolve 7 (appFull None (Some Unparseable)))) = Some Unparseable
   \<and> \<not> fresh_snapshot (9 * 60 * 60 * 1000) (cache (appWith (Some 0) (Some (Parsed (snapshotAt 0)))))
   \<and> accepts (appWith (Some 0) (Some (Parsed (snapshotAt 0))))
        (snapshotOf (9 * 60 * 60 * 1000 + 7) allResolve)
   \<and> cache (fst (loadTopics allResolve (9 * 60 * 60 * 1000) (9 * 60 * 60 * 1000 + 7) False
                   (appWith (Some 0) (Some (Parsed (snapshotAt 0))))))
       = Some (Parsed \<lparr>timestamp = Some (9 * 60 * 60 * 1000 + 7),
                          data = Some (\<lambda>c. Some [topicB])\<rparr>)
   \<and> (\<forall>c. \<exists>e. allFail c 0 = Inl e \<and> \<not> retryable e)
   \<and> accepts (appWith None None) (snapshotOf 7 (appFetchers allFail clock0))
   \<and> cache (fst (fetchCycle (appFetchers allFail clock0) 7 (appWith None None)))
       = Some (Parsed \<lparr>timestamp = Some 7, data = Some (\<lambda>c. Some (fallbackData c))\<rparr>)
   \<and> error (fst (fetchCycle (appFetchers allFail clock0) 7 (appWith None None))) = None"
proof -
  let ?stale = "appWith (Some 0) (Some (Parsed (snapshotAt 0)))"
  have a: "\<forall>c. \<not> isl (allResolve c)"
    by (simp add: allResolve_def)
  have m: "\<exists>c. isl (musicRejects c)"
    by (rule exI [of _ music]) (simp add: musicRejects_def)
  have f: "\<forall>c. \<exists>e. allFail c 0 = Inl e \<and> \<not> retryable e"
    by (simp add: allFail_def retryable_def)
  have ok: "accepts (appWith lu c) item" for lu c item
    by (simp add: appWith_def)
  have no: "\<not> accepts (appFull lu c) item" for lu c item
    by (simp add: appFull_def)
  have s: "\<not> fresh_snapshot (9 * 60 * 60 * 1000) (cache ?stale)"
    by (simp add: fresh_snapshot_def appWith_def snapshotAt_def REFRESH_INTERVAL_def)
  have p: "snapshotOf t allResolve = \<lparr>timestamp = Some t, data = Some (\<lambda>c. Some [topicB])\<rparr>"
    for t
    by (simp add: snapshotOf_def allResolve_def)
  note T1 = fetchCycle_persist [where f = allResolve and now = 7 and w = "appWith None None"
              and ?now0.0 = 0 and ai = allFail and clock = clock0]
  note T2 = fetchCycle_persist [where f = musicRejects and now = 7
              and w = "appWith None (Some Unparseable)"
              and ?now0.0 = 0 and ai = allFail and clock = clock0]
  note T3 = fetchCycle_persist [where f = allResolve and now = 7
              and w = "appFull None (Some Unparseable)"
              and ?now0.0 = 0 and ai = allFail and clock = clock0]
  note T4 = fetchCycle_persist [where f = allResolve and now = "9 * 60 * 60 * 1000 + 7"
              and w = ?stale and ?now0.0 = "9 * 60 * 60 * 1000"
              and ai = allFail and clock = clock0]
  have r1: "cache (fst (fetchCycle allResolve 7 (appWith None None)))
       = Some (Parsed \<lparr>timestamp = Some 7, data = Some (\<lambda>c. Some [topicB])\<rparr>)"
    using T1 [THEN conjunct2, THEN conjunct2, THEN conjunct1] a ok [of None None]
    by (simp add: p)
  have r2: "cache (fst (fetchCycle musicRejects 7 (appWith None (Some Unparseable))))
              = Some Unparseable"
    using T2 [THEN conjunct2, THEN conjunct2, THEN conjunct2, THEN conjunct1] m
    by (auto simp: appWith_def)
  have r3: "cache (fst (fetchCycle allResolve 7 (appFull None (Some Unparseable))))
              = Some Unparseable"
    using T3 [THEN conjunct2, THEN conjunct2, THEN conjunct2, THEN conjunct1]
          no [of None "Some Unparseable"]
    by (simp add: appFull_def)
  have r4: "cache (fst (loadTopics allResolve (9 * 60 * 60 * 1000) (9 * 60 * 60 * 1000 + 7) False
                   ?stale))
       = Some (Parsed \<lparr>timestamp = Some (9 * 60 * 60 * 1000 + 7),
                          data = Some (\<lambda>c. Some [topicB])\<rparr>)"
    using T4 [THEN conjunct2, THEN conjunct2, THEN conjunct2, THEN conjunct2, THEN conjunct1]
          s a ok [of "Some 0" "Some (Parsed (snapshotAt 0))"]
    by (simp add: p)
  note D = T1 [THEN conjunct2, THEN conjunct2, THEN conjunct2, THEN conjunct2, THEN conjunct2,
               THEN mp, OF f]
  have r5: "cache (fst (fetchCycle (appFetchers allFail clock0) 7 (appWith None None)))
       = Some (Parsed \<lparr>timestamp = Some 7, data = Some (\<lambda>c. Some (fallbackData c))\<rparr>)"
    using D [THEN conjunct2, THEN conjunct2, THEN conjunct2] ok [of None None] by blast
  have r6: "error (fst (fetchCycle (appFetchers allFail clock0) 7 (appWith None None))) = None"
    using D [THEN conjunct2, THEN conjunct2, THEN conjunct2] ok [of None None]
    by (simp add: appWith_def)
  show ?thesis
    using a ok [of None None "snapshotOf 7 allResolve"] r1 m r2
      no [of None "Some Unparseable" "snapshotOf 7 allResolve"] r3 s
      ok [of "Some 0" "Some (Parsed (snapshotAt 0))"
             "snapshotOf (9 * 60 * 60 * 1000 + 7) allResolve"] r4 f
      ok [of None None "snapshotOf 7 (appFetchers allFail clock0)"] r5 r6
    by (intro conjI)
qed

text \<open>
  Claim C9 as stated fails: with the fetchers of the application and a storage that takes
  no write, the cycle completes all four groups and calls \<^verbatim>\<open>setItem\<close>, which throws;
  nothing is persisted and the error banner is shown.
\<close>

theorem fetchCycle_write_throws_counterexample:
  "(\<forall>c. \<not> isl (appFetchers allFail clock0 c))
   \<and> snd (fetchCycle (appFetchers allFail clock0) 7 (appFull None None))
       = [Group [news, tech], Wait 1500, Group [music, billboard, hiphop], Wait 1500,
          Group [memes, gaming], Wait 1500, Group [landscapes, wildlife],
          SetItem \<lparr>timestamp = Some 7, data = Some (\<lambda>c. Some (fallbackData c))\<rparr> False]
   \<and> cache (appFull None None) = None
   \<and> cache (fst (fetchCycle (appFetchers allFail clock0) 7 (appFull None None))) = None
   \<and> error (fst (fetchCycle (appFetchers allFail clock0) 7 (appFull None None)))
       = Some ''Failed to load trending topics. Please check your connection.''"
proof -
  have a: "accepts (appFull None None) = (\<lambda>item. False)"
    by (simp add: appFull_def)
  have s: "snapshotOf 7 (appFetchers allFail clock0)
             = \<lparr>timestamp = Some 7, data = Some (\<lambda>c. Some (fallbackData c))\<rparr>"
    by (simp add: snapshotOf_def appFetchers_allFail)
  have c: "fetchCycle (appFetchers allFail clock0) 7 (appFull None None)
             = (failed (appFull None None\<lparr>topics := (\<lambda>c. projr (appFetchers allFail clock0 c)),
                          lastUpdated := Some 7\<rparr>),
       [Group [news, tech], Wait 1500, Group [music, billboard, hiphop], Wait 1500,
          Group [memes, gaming], Wait 1500, Group [landscapes, wildlife],
          SetItem \<lparr>timestamp = Some 7, data = Some (\<lambda>c. Some (fallbackData c))\<rparr> False])"
    by (simp add: appFetchers_cycle a s)
  show ?thesis
    by (simp only: c fst_conv snd_conv) (simp add: failed_def appFull_def appFetchers_resolves)
qed

section \<open>A category fetch always shows something\<close>

lemma fallbackData_length: "length (fallbackData c) = 6"
  by (cases c)
     (simp_all add: fallbackData_def fetchNewsAndPolitics_fallback_def
        fetchTechTrends_fallback_def fetchMusicTrends_fallback_def
        fetchBillboardTrends_fallback_def fetchHipHopTrends_fallback_def
        fetchMemeTrends_fallback_def fetchGamingTrends_fallback_def
        fetchLandscapeTrends_fallback_def fetchWildlifeTrends_fallback_def)

lemma fetchTopicsByCategory_length:
  "length (projr (snd (fetchTopicsByCategory ai now p fb))) \<le> max 10 (length fb)
   \<and> (fb \<noteq> [] \<longrightarrow> projr (snd (fetchTopicsByCategory ai now p fb)) \<noteq> [])"
  by (auto simp: fetchTopicsByCategory_result Let_def split: sum.splits)

text \<open>
  Claim C10. The category fetch never rejects, returns a non-empty list whenever its
  fallback list is non-empty, and returns at most 10 topics whenever its fallback list
  has at most 10. Each of the nine fallback lists has 6 entries, so each of the nine
  fetchers of the application returns between 1 and 10 topics, whether the response
  parses, parses to no record, or the call fails.
\<close>

theorem fetchTopicsByCategory_nonempty:
  "(fb \<noteq> [] \<longrightarrow> projr (snd (fetchTopicsByCategory ai now p fb)) \<noteq> [])
   \<and> (length fb \<le> 10 \<longrightarrow> length (projr (snd (fetchTopicsByCategory ai now p fb))) \<le> 10)
   \<and> \<not> isl (snd (fetchTopicsByCategory ai now p fb))
   \<and> (\<forall>c. length (fallbackData c) = 6)
   \<and> (\<forall>c. \<not> isl (appFetchers ais clock c)
          \<and> 1 \<le> length (projr (appFetchers ais clock c))
          \<and> length (projr (appFetchers ais clock c)) \<le> 10)"
proof -
  have a: "length fb \<le> 10 \<longrightarrow> length (projr (snd (fetchTopicsByCategory ai now p fb))) \<le> 10"
    using fetchTopicsByCategory_length [of ai now p fb] by auto
  have b: "\<not> isl (snd (fetchTopicsByCategory ai now p fb))"
    by (simp add: fetchTopicsByCategory_result)
  have c: "\<not> isl (appFetchers ais clock c)
          \<and> 1 \<le> length (projr (appFetchers ais clock c))
          \<and> length (projr (appFetchers ais clock c)) \<le> 10" for c
  proof -
    have n: "fallbackData c \<noteq> []"
      using fallbackData_length [of c] by auto
    have "projr (appFetchers ais clock c) \<noteq> []"
      using n fetchTopicsByCategory_length
              [of "ais c" "clock c" "categoryPrefixOf c" "fallbackData c"]
      by (simp add: appFetchers_unfold)
    then have "1 \<le> length (projr (appFetchers ais clock c))"
      by (cases "projr (appFetchers ais clock c)") simp_all
    moreover have "length (projr (appFetchers ais clock c)) \<le> 10"
      using fetchTopicsByCategory_length
              [of "ais c" "clock c" "categoryPrefixOf c" "fallbackData c"]
      by (simp add: appFetchers_unfold fallbackData_length)
    ultimately show ?thesis
      by (simp add: appFetchers_resolves)
  qed
  show ?thesis
    using a b c fetchTopicsByCategory_length [of ai now p fb] fallbackData_length by blast
qed

theorem fetchTopicsByCategory_nonempty_witness:
  "fetchNewsAndPolitics_fallback \<noteq> [] \<and> length fetchNewsAndPolitics_fallback \<le> 10
   \<and> projr (snd (fetchTopicsByCategory serviceJunk (\<lambda>i. 5) ''news''
                   fetchNewsAndPolitics_fallback)) \<noteq> []
   \<and> length (projr (snd (fetchTopicsByCategory serviceJunk (\<lambda>i. 5) ''news''
                           fetchNewsAndPolitics_fallback))) \<le> 10"
proof -
  have n: "fetchNewsAndPolitics_fallback \<noteq> []"
    by (simp add: fetchNewsAndPolitics_fallback_def)
  have l: "length fetchNewsAndPolitics_fallback \<le> 10"
    by (simp add: fetchNewsAndPolitics_fallback_def)
  show ?thesis
    using n l fetchTopicsByCategory_nonempty
                [of fetchNewsAndPolitics_fallback serviceJunk "\<lambda>i. 5" "''news''" allFail clock0]
    by blast
qed

end
